theory Spec2Isabelle
  imports Main "HOL-Library.Multiset"
begin

section \<open>Poll ledger (models/Poll)\<close>

text \<open>
  The mongoose schemas of the poll model. JavaScript numbers hold only integers here
  (Telegram user ids, vote counts, option indices), so they are modelled by \<open>int\<close>;
  a field that may be absent (\<open>undefined\<close>/\<open>null\<close>) is an \<open>option\<close>.
  \<open>existingVotes\<close> has the schema default 0, so \<open>existingVotes || 0\<close> is the field itself,
  and \<open>voterIds\<close> the default \<open>[]\<close>, so it is always an array. The fields that the
  handlers below neither read nor write (title, creator, creation time and the like) are
  left out.
\<close>

record poll_option =
  option_text :: string
  voterIds :: "int list"
  existingVotes :: int

record mention =
  userId :: "int option"
  username :: "string option"
  firstName :: "string option"
  lastName :: "string option"
  voted :: bool

record poll =
  pollId :: "string option"
  chatId :: int
  messageId :: int
  options :: "poll_option list"
  mentions :: "mention list"
  isMultipleChoice :: bool
  isClosed :: bool
  isTracked :: bool
  total_voter_count :: "int option"
  originalPollId :: "string option"
  updatedAt :: int

section \<open>Placeholder ids\<close>

text \<open>
  \<open>Array.from({ length: n }, (_, idx) => lastPlaceholderId - idx)\<close>. In the allocating
  loops below \<open>Math.min(...negativeIds)\<close> is \<open>Min (set negativeIds)\<close>; it is only taken of a
  non-empty array.
\<close>

definition placeholderRun :: "int \<Rightarrow> nat \<Rightarrow> int list" where
  "placeholderRun lastPlaceholderId n = map (\<lambda>idx. lastPlaceholderId - int idx) [0..<n]"

section \<open>Telegram payloads\<close>

text \<open>
  A Telegram poll object as the handlers read it: \<open>tg_id\<close> is \<open>poll.id\<close>,
  \<open>tg_total_voter_count\<close> is \<open>Some n\<close> when \<open>total_voter_count\<close> is a number, \<open>tg_options\<close> is
  \<open>Some\<close> of the array when \<open>options\<close> is an array, each element \<open>Some n\<close> when the option
  exists and its \<open>voter_count\<close> is a number.
\<close>

record telegram_poll =
  tg_id :: "string option"
  tg_total_voter_count :: "int option"
  tg_options :: "int option list option"

record telegram_user =
  user_id :: int
  user_username :: "string option"
  first_name :: "string option"
  last_name :: "string option"

record poll_answer =
  poll_id :: "string option"
  user :: "telegram_user option"
  option_ids :: "int list"

section \<open>Storage\<close>

text \<open>
  The collection is the list of its documents in natural order; a document is addressed
  by its position, which stands for its \<open>_id\<close>. \<open>findOne\<close> returns the first match.
\<close>

type_synonym collection = "poll list"

definition findOne :: "(poll \<Rightarrow> bool) \<Rightarrow> collection \<Rightarrow> nat option" where
  "findOne q db = map_option fst (find (\<lambda>(i, d). q d) (enumerate 0 db))"

definition findMany :: "(poll \<Rightarrow> bool) \<Rightarrow> collection \<Rightarrow> (nat \<times> poll) list" where
  "findMany q db = filter (\<lambda>(i, d). q d) (enumerate 0 db)"

text \<open>
  \<open>doc.save()\<close> of a document loaded from position \<open>i\<close>. The schema has
  \<open>timestamps: true\<close>: mongoose stamps \<open>updatedAt\<close> on a save of a modified document.
\<close>

definition save :: "int \<Rightarrow> nat \<Rightarrow> poll \<Rightarrow> collection \<Rightarrow> collection" where
  "save now i d db = (if d = db ! i then db else db[i := d\<lparr>updatedAt := now\<rparr>])"

section \<open>The loop over options shared by the three aggregate paths\<close>

text \<open>
  \<open>for (let i = 0; i < telegramPoll.options.length && i < poll.options.length; i++)\<close>,
  started at index \<open>i\<close>, with the body \<open>f\<close> applied to the i-th option.
\<close>

fun forOptions ::
  "(nat \<Rightarrow> int option \<Rightarrow> poll_option \<Rightarrow> poll_option) \<Rightarrow> nat \<Rightarrow> int option list \<Rightarrow>
   poll_option list \<Rightarrow> poll_option list" where
  "forOptions f i (t # ts) (d # ds) = f i t d # forOptions f (Suc i) ts ds"
| "forOptions f i ts ds = ds"

section \<open>bot.on('poll'): platform snapshot push\<close>

definition pollUpdateOption :: "nat \<Rightarrow> int option \<Rightarrow> poll_option \<Rightarrow> poll_option" where
  "pollUpdateOption i pollOption dbOption =
     (case pollOption of
        None \<Rightarrow> dbOption
      | Some newVoterCount \<Rightarrow>
          let oldVoterCount = existingVotes dbOption in
          if newVoterCount > oldVoterCount then
            let newVotes = newVoterCount - oldVoterCount in
            if newVotes > 0 then
              let negativeIds = filter (\<lambda>id. id < 0) (voterIds dbOption);
                  baseId = -1000000 * (int i + 1);
                  lastPlaceholderId =
                    (if negativeIds \<noteq> [] then Min (set negativeIds) - 1 else baseId - 1);
                  newVoterIds = placeholderRun lastPlaceholderId (nat newVotes)
              in dbOption\<lparr>voterIds := voterIds dbOption @ newVoterIds,
                            existingVotes := newVoterCount\<rparr>
            else dbOption
          else dbOption)"

text \<open>What the handler does to the resolved, open document before saving it.\<close>

definition pollUpdate :: "telegram_poll \<Rightarrow> poll \<Rightarrow> poll" where
  "pollUpdate tp dbPoll =
     (let dbPoll1 = dbPoll\<lparr>total_voter_count := tg_total_voter_count tp\<rparr> in
      case tg_options tp of
        Some tos \<Rightarrow>
          if isTracked dbPoll1
          then dbPoll1\<lparr>options := forOptions pollUpdateOption 0 tos (options dbPoll1)\<rparr>
          else dbPoll1
      | None \<Rightarrow> dbPoll1)"

definition findByPollId :: "string \<Rightarrow> collection \<Rightarrow> nat option" where
  "findByPollId pid db =
     (case findOne (\<lambda>d. pollId d = Some pid) db of
        Some i \<Rightarrow> Some i
      | None \<Rightarrow> findOne (\<lambda>d. originalPollId d = Some pid) db)"

definition on_poll :: "int \<Rightarrow> telegram_poll option \<Rightarrow> collection \<Rightarrow> collection" where
  "on_poll now pollData db =
     (case pollData of
        None \<Rightarrow> db
      | Some tp \<Rightarrow>
          (case tg_id tp of
             None \<Rightarrow> db
           | Some pid \<Rightarrow>
               if pid = [] then db
               else
                 (case findByPollId pid db of
                    None \<Rightarrow> db
                  | Some i \<Rightarrow>
                      if isClosed (db ! i) then db
                      else save now i (pollUpdate tp (db ! i)) db)))"

section \<open>pollingService: the periodic refresh\<close>

definition updateTrackedOption :: "nat \<Rightarrow> int option \<Rightarrow> poll_option \<Rightarrow> poll_option" where
  "updateTrackedOption i telegramOption pollOption =
     (case telegramOption of
        None \<Rightarrow> pollOption
      | Some newVoterCount \<Rightarrow>
          let currentExistingVotes = existingVotes pollOption in
          if newVoterCount < 0 \<or> newVoterCount > 10000 then pollOption
          else if newVoterCount > currentExistingVotes then
            let newVotes = newVoterCount - currentExistingVotes;
                baseId = -1000000 * (int i + 1);
                negativeIds = filter (\<lambda>id. id < 0 \<and> id \<ge> baseId) (voterIds pollOption);
                lowestExistingId =
                  (if negativeIds \<noteq> [] then Min (set negativeIds) - 1 else baseId - 1);
                placeholderIds = placeholderRun lowestExistingId (nat newVotes)
            in pollOption\<lparr>voterIds := voterIds pollOption @ placeholderIds,
                            existingVotes := newVoterCount\<rparr>
          else pollOption)"

text \<open>
  One iteration of the loop over the tracked polls. \<open>fetched\<close> is the \<open>poll\<close> member of the
  message the three fetch attempts produced, \<open>None\<close> when no attempt gave a poll message
  (the poll is skipped). Past the unchanged-total check \<open>hasChanges\<close> is always set.
\<close>

definition updateTrackedPoll :: "int \<Rightarrow> telegram_poll option \<Rightarrow> poll \<Rightarrow> poll" where
  "updateTrackedPoll now fetched p =
     (case fetched of
        None \<Rightarrow> p
      | Some telegramPoll \<Rightarrow>
          (case tg_total_voter_count telegramPoll of
             None \<Rightarrow> p
           | Some observedTotal \<Rightarrow>
               if Some observedTotal = total_voter_count p then p
               else
                 let p1 = p\<lparr>total_voter_count := Some observedTotal\<rparr>;
                     p2 = (case tg_options telegramPoll of
                             Some tos \<Rightarrow>
                               p1\<lparr>options := forOptions updateTrackedOption 0 tos (options p1)\<rparr>
                           | None \<Rightarrow> p1)
                 in p2\<lparr>updatedAt := now\<rparr>))"

definition MAX_POLLS_TO_CHECK :: nat where
  "MAX_POLLS_TO_CHECK = 50"

text \<open>
  \<open>ready\<close>: the database is connected and the bot is initialised. \<open>fetch\<close> stands for the
  Telegram calls. The query sorts by \<open>updatedAt\<close> ascending and keeps the first 50.
\<close>

definition updateTrackedPolls ::
  "int \<Rightarrow> bool \<Rightarrow> (poll \<Rightarrow> telegram_poll option) \<Rightarrow> collection \<Rightarrow> collection" where
  "updateTrackedPolls now ready fetch db =
     (if \<not> ready then db
      else
        let trackedPolls =
              take MAX_POLLS_TO_CHECK
                (sort_key (\<lambda>(i, d). updatedAt d)
                   (findMany (\<lambda>d. isTracked d \<and> \<not> isClosed d) db))
        in fold (\<lambda>(i, d) db'. db'[i := updateTrackedPoll now (fetch d) d]) trackedPolls db)"

section \<open>bot.on('poll_answer'): named vote events\<close>

subsection \<open>Poll resolution\<close>

text \<open>
  The two regular-expression queries are answered by the database. The pattern is the
  first ten characters of the inbound id. A pattern of decimal digits (such are the
  prefixes of Telegram's poll ids) has no metacharacter and no letter, so the query
  \<open>{ $regex: pat, $options: 'i' }\<close>, which is not anchored, matches exactly the stored
  strings that contain the pattern somewhere, and does not throw. For any other pattern
  the outcome is left open: \<open>regex_i pat\<close> is that query and \<open>regex_prefix pat\<close> the query
  \<open>new RegExp('^' + pat)\<close>, \<open>None\<close> when the query throws, otherwise the test a stored
  string passes. Plain equality queries are taken to succeed.
\<close>

definition isDigit :: "char \<Rightarrow> bool" where
  "isDigit c = (c \<in> set ''0123456789'')"

definition containsDigits :: "string \<Rightarrow> string \<Rightarrow> bool" where
  "containsDigits pat s = list_ex (\<lambda>k. take (length pat) (drop k s) = pat) [0..<Suc (length s)]"

record search_env =
  regex_i :: "string \<Rightarrow> (string \<Rightarrow> bool) option"
  regex_prefix :: "string \<Rightarrow> (string \<Rightarrow> bool) option"

definition fieldMatches :: "(string \<Rightarrow> bool) \<Rightarrow> string option \<Rightarrow> bool" where
  "fieldMatches m fld = (case fld of None \<Rightarrow> False | Some s \<Rightarrow> m s)"

definition prefixQuery :: "(string \<Rightarrow> bool) \<Rightarrow> poll \<Rightarrow> bool" where
  "prefixQuery m d =
     (isClosed d = False \<and> (fieldMatches m (pollId d) \<or> fieldMatches m (originalPollId d)))"

definition openQuery :: "poll \<Rightarrow> bool" where
  "openQuery d = (isClosed d = False)"

text \<open>The first query: containment for a pattern of digits.\<close>

definition regexQuery :: "search_env \<Rightarrow> string \<Rightarrow> (string \<Rightarrow> bool) option" where
  "regexQuery env pat =
     (if list_all isDigit pat then Some (containsDigits pat) else regex_i env pat)"

text \<open>
  The inner \<open>try\<close>: the case-insensitive query, and when it throws the anchored one;
  \<open>None\<close> when that throws as well (the outer \<open>catch\<close> then takes over).
\<close>

definition prefixSearch :: "search_env \<Rightarrow> string \<Rightarrow> collection \<Rightarrow> (nat \<times> poll) list option" where
  "prefixSearch env pollIdPrefix db =
     (case regexQuery env pollIdPrefix of
        Some m \<Rightarrow> Some (findMany (prefixQuery m) db)
      | None \<Rightarrow>
          (case regex_prefix env pollIdPrefix of
             Some m \<Rightarrow> Some (findMany (prefixQuery m) db)
           | None \<Rightarrow> None))"

text \<open>
  The document filter of that search for an inbound id of digits: an open poll whose
  \<open>pollId\<close> or \<open>originalPollId\<close> contains the first ten characters of the id.
\<close>

definition prefixCandidate :: "string \<Rightarrow> poll \<Rightarrow> bool" where
  "prefixCandidate pid d = prefixQuery (containsDigits (take 10 pid)) d"

text \<open>The value of \<open>allActivePolls\<close> after the nested try blocks.\<close>

definition scanActivePolls :: "search_env \<Rightarrow> string \<Rightarrow> collection \<Rightarrow> (nat \<times> poll) list" where
  "scanActivePolls env pid db =
     (let pollIdPrefix = take 10 pid in
      case prefixSearch env pollIdPrefix db of
        Some found \<Rightarrow> if found = [] then findMany openQuery db else found
      | None \<Rightarrow> findMany openQuery db)"

text \<open>
  \<open>allActivePolls.sort((a, b) => b.updatedAt - a.updatedAt)[0]\<close>: the sort is stable, so
  the first of the most recently updated candidates is taken.
\<close>

definition resolveAnswerPoll :: "search_env \<Rightarrow> string \<Rightarrow> collection \<Rightarrow> nat option" where
  "resolveAnswerPoll env pid db =
     (case findByPollId pid db of
        Some i \<Rightarrow> Some i
      | None \<Rightarrow>
          let allActivePolls = scanActivePolls env pid db in
          if length allActivePolls = 1 then Some (fst (hd allActivePolls))
          else if length allActivePolls > 1
          then Some (fst (hd (sort_key (\<lambda>(i, d). - updatedAt d) allActivePolls)))
          else None)"

subsection \<open>Vote recording\<close>

text \<open>\<open>option.voterIds.filter(id => ...)\<close>: only the id equal to \<open>user.id\<close> is dropped.\<close>

definition removeUserVotes :: "int \<Rightarrow> poll_option \<Rightarrow> poll_option" where
  "removeUserVotes uid opt = opt\<lparr>voterIds := filter (\<lambda>id. id \<noteq> uid) (voterIds opt)\<rparr>"

text \<open>One iteration of \<open>for (const optionIndex of option_ids)\<close>.\<close>

definition recordVote :: "int \<Rightarrow> poll \<Rightarrow> int \<Rightarrow> poll" where
  "recordVote uid p optionIndex =
     (if optionIndex \<ge> 0 \<and> optionIndex < int (length (options p)) then
        let opts1 = (if \<not> isMultipleChoice p then map (removeUserVotes uid) (options p)
                     else options p);
            k = nat optionIndex;
            opt = opts1 ! k
        in if uid \<notin> set (voterIds opt) then
             let ids = voterIds opt @ [uid];
                 realVoterCount = int (length (filter (\<lambda>id. id > 0) ids));
                 votes = (if existingVotes opt < realVoterCount then realVoterCount
                          else existingVotes opt)
             in p\<lparr>options := opts1[k := opt\<lparr>voterIds := ids, existingVotes := votes\<rparr>]\<rparr>
           else p\<lparr>options := opts1\<rparr>
      else p)"

text \<open>The guard of that iteration, by itself: the selected index is an option of the poll.\<close>

definition validIndex :: "poll \<Rightarrow> int \<Rightarrow> bool" where
  "validIndex p idx = (0 \<le> idx \<and> idx < int (length (options p)))"

text \<open>The body of \<open>poll.options.forEach\<close> in the retraction branch.\<close>

definition retractVote :: "int \<Rightarrow> poll_option \<Rightarrow> poll_option" where
  "retractVote uid opt =
     (let hadVote = (uid \<in> set (voterIds opt));
          opt1 = opt\<lparr>voterIds := filter (\<lambda>id. id \<noteq> uid) (voterIds opt)\<rparr>
      in if hadVote then
           let realVoterCount = int (length (filter (\<lambda>id. id > 0) (voterIds opt1)))
           in if existingVotes opt1 > realVoterCount
              then opt1\<lparr>existingVotes := realVoterCount\<rparr> else opt1
         else opt1)"

subsection \<open>Mention roster\<close>

definition findIndex :: "('a \<Rightarrow> bool) \<Rightarrow> 'a list \<Rightarrow> nat option" where
  "findIndex q xs = map_option fst (find (\<lambda>(i, x). q x) (enumerate 0 xs))"

definition mentionMatches :: "telegram_user \<Rightarrow> mention \<Rightarrow> bool" where
  "mentionMatches u m =
     (userId m = Some (user_id u) \<or>
      (case username m of None \<Rightarrow> False | Some n \<Rightarrow> n \<noteq> [] \<and> user_username u = Some n))"

text \<open>\<open>!mention.userId\<close> holds for a missing id and for 0. The schema's trimming of the
  name strings is left out.\<close>

definition updateMention :: "telegram_user \<Rightarrow> int list \<Rightarrow> mention \<Rightarrow> mention" where
  "updateMention u ids m =
     (let m1 = (if userId m = None \<or> userId m = Some 0
                then m\<lparr>userId := Some (user_id u), firstName := first_name u,
                        lastName := last_name u\<rparr>
                else m)
      in m1\<lparr>voted := (ids \<noteq> [])\<rparr>)"

definition updateMentions :: "telegram_user \<Rightarrow> int list \<Rightarrow> mention list \<Rightarrow> mention list" where
  "updateMentions u ids ms =
     (case findIndex (mentionMatches u) ms of
        None \<Rightarrow> ms
      | Some k \<Rightarrow> ms[k := updateMention u ids (ms ! k)])"

subsection \<open>Total recomputation\<close>

text \<open>\<open>uniqueVoters\<close> is the JavaScript \<open>Set\<close>: a list without repetition, \<open>add\<close> inserting
  an id only when it is absent; its \<open>size\<close> is the length.\<close>

definition uniqueVoters :: "poll_option list \<Rightarrow> int list" where
  "uniqueVoters opts =
     fold (\<lambda>opt acc. fold (\<lambda>id acc'. if id > 0 then List.insert id acc' else acc')
                        (voterIds opt) acc) opts []"

definition placeholderVotes :: "poll_option list \<Rightarrow> int" where
  "placeholderVotes opts =
     fold (\<lambda>opt sum. sum + int (length (filter (\<lambda>id. id < 0) (voterIds opt)))) opts 0"

definition newTotalVoterCount :: "poll_option list \<Rightarrow> int" where
  "newTotalVoterCount opts = int (length (uniqueVoters opts)) + placeholderVotes opts"

subsection \<open>The handler\<close>

text \<open>What the handler does to the resolved, open document before saving it.\<close>

definition pollAnswerUpdate :: "int \<Rightarrow> telegram_user \<Rightarrow> int list \<Rightarrow> poll \<Rightarrow> poll" where
  "pollAnswerUpdate now u ids p =
     (let p1 = (if ids \<noteq> [] then foldl (recordVote (user_id u)) p ids
                else p\<lparr>options := map (retractVote (user_id u)) (options p)\<rparr>);
          p2 = p1\<lparr>mentions := updateMentions u ids (mentions p1)\<rparr>;
          p3 = p2\<lparr>updatedAt := now\<rparr>;
          total = newTotalVoterCount (options p3)
      in if total_voter_count p3 = Some total then p3
         else p3\<lparr>total_voter_count := Some total\<rparr>)"

definition on_poll_answer ::
  "search_env \<Rightarrow> int \<Rightarrow> poll_answer option \<Rightarrow> collection \<Rightarrow> collection" where
  "on_poll_answer env now pollAnswerData db =
     (case pollAnswerData of
        None \<Rightarrow> db
      | Some a \<Rightarrow>
          (case poll_id a of
             None \<Rightarrow> db
           | Some pid \<Rightarrow>
               if pid = [] then db
               else
                 (case user a of
                    None \<Rightarrow> db
                  | Some u \<Rightarrow>
                      (case resolveAnswerPoll env pid db of
                         None \<Rightarrow> db
                       | Some i \<Rightarrow>
                           if isClosed (db ! i) then db
                           else db[i := pollAnswerUpdate now u (option_ids a) (db ! i)]))))"

section \<open>PollSchema.methods.addVote\<close>

text \<open>The document after the method and the value it returns.\<close>

definition addVote :: "int \<Rightarrow> int \<Rightarrow> poll \<Rightarrow> poll \<times> bool" where
  "addVote optionIndex uid p =
     (if isClosed p then (p, False)
      else if optionIndex < 0 \<or> optionIndex \<ge> int (length (options p)) then (p, False)
      else
        let opts1 = (if \<not> isMultipleChoice p then map (removeUserVotes uid) (options p)
                     else options p);
            k = nat optionIndex;
            opts2 = (if uid \<notin> set (voterIds (opts1 ! k))
                     then opts1[k := (opts1 ! k)\<lparr>voterIds := voterIds (opts1 ! k) @ [uid]\<rparr>]
                     else opts1);
            ms = (case findIndex (\<lambda>m. userId m = Some uid) (mentions p) of
                    None \<Rightarrow> mentions p
                  | Some j \<Rightarrow> (mentions p)[j := (mentions p ! j)\<lparr>voted := True\<rparr>])
        in (p\<lparr>options := opts2, mentions := ms\<rparr>, True))"

section \<open>The refreshpoll command\<close>

text \<open>
  The command as the handler reads it: whether the chat is a group, the chat id, and the
  replied-to message (its id and its poll, if it is one).
\<close>

record refresh_command =
  isAnyGroup :: bool
  chat_id :: int
  reply_to_message :: "(int \<times> telegram_poll option) option"

text \<open>
  The body of the loop over options in the \<open>refreshpoll\<close> handler. \<open>telegramOption\<close> is
  \<open>Some n\<close> when the Telegram option exists and \<open>typeof voter_count === 'number'\<close>.
\<close>

definition refreshOption :: "nat \<Rightarrow> int option \<Rightarrow> poll_option \<Rightarrow> poll_option" where
  "refreshOption i telegramOption pollOption =
     (case telegramOption of
        None \<Rightarrow> pollOption
      | Some newVoterCount \<Rightarrow>
          let oldVoterCount = existingVotes pollOption in
          if newVoterCount \<noteq> oldVoterCount then
            let voteDiff = newVoterCount - oldVoterCount;
                ids =
                  (if voteDiff > 0 then
                     let negativeIds = filter (\<lambda>id. id < 0) (voterIds pollOption);
                         baseId = -1000000 * (int i + 1);
                         lastPlaceholderId =
                           (if negativeIds \<noteq> [] then Min (set negativeIds) - 1 else baseId - 1)
                     in voterIds pollOption @ placeholderRun lastPlaceholderId (nat voteDiff)
                   else if voteDiff < 0 then
                     let placeholderIds = sort (filter (\<lambda>id. id < 0) (voterIds pollOption));
                         idsToRemove = take (nat \<bar>voteDiff\<bar>) placeholderIds
                     in filter (\<lambda>id. id \<notin> set idsToRemove) (voterIds pollOption)
                   else voterIds pollOption)
            in pollOption\<lparr>voterIds := ids, existingVotes := newVoterCount\<rparr>
          else pollOption)"

text \<open>What the handler does to the found, tracked document before saving it.\<close>

definition refreshPollUpdate :: "int \<Rightarrow> telegram_poll \<Rightarrow> poll \<Rightarrow> poll" where
  "refreshPollUpdate now telegramPoll p =
     (let p1 = p\<lparr>total_voter_count :=
                   Some (case tg_total_voter_count telegramPoll of Some n \<Rightarrow> n | None \<Rightarrow> 0)\<rparr>;
          p2 = (case tg_options telegramPoll of
                  Some tos \<Rightarrow> p1\<lparr>options := forOptions refreshOption 0 tos (options p1)\<rparr>
                | None \<Rightarrow> p1)
      in p2\<lparr>updatedAt := now\<rparr>)"

definition refreshpoll :: "int \<Rightarrow> refresh_command \<Rightarrow> collection \<Rightarrow> collection" where
  "refreshpoll now cmd db =
     (if isAnyGroup cmd = False then db
      else
        (case reply_to_message cmd of
           None \<Rightarrow> db
         | Some (message_id, repliedPoll) \<Rightarrow>
             (case repliedPoll of
                None \<Rightarrow> db
              | Some telegramPoll \<Rightarrow>
                  (case findOne (\<lambda>d. chatId d = chat_id cmd \<and> messageId d = message_id) db of
                     None \<Rightarrow> db
                   | Some i \<Rightarrow>
                       if isTracked (db ! i) = False then db
                       else db[i := refreshPollUpdate now telegramPoll (db ! i)]))))"

section \<open>Sequences of named-vote events\<close>

text \<open>
  A named vote reaches the ledger as a \<open>poll_answer\<close> update (at a time \<open>now\<close>) or as a call
  of \<open>addVote\<close> on the document at position \<open>i\<close>, which saves the document it changed.
\<close>

datatype named_vote_event =
  PollAnswer int "poll_answer option"
| AddVote nat int int

fun applyNamedVote :: "search_env \<Rightarrow> collection \<Rightarrow> named_vote_event \<Rightarrow> collection" where
  "applyNamedVote env db (PollAnswer now e) = on_poll_answer env now e db"
| "applyNamedVote env db (AddVote i optionIndex uid) =
     (if i < length db then db[i := fst (addVote optionIndex uid (db ! i))] else db)"

text \<open>No positive id occurs twice in an option's \<open>voterIds\<close>.\<close>

definition namedOnce :: "poll_option \<Rightarrow> bool" where
  "namedOnce opt = distinct (filter (\<lambda>id. id > 0) (voterIds opt))"

definition ledgerNamedOnce :: "collection \<Rightarrow> bool" where
  "ledgerNamedOnce db = list_all (\<lambda>d. list_all namedOnce (options d)) db"

section \<open>Example ledgers\<close>

definition threePlaceholders :: poll_option where
  "threePlaceholders =
     \<lparr>option_text = ''A'', voterIds = [-1000001, -1000002, -1000003], existingVotes = 3\<rparr>"

definition emptyOption :: poll_option where
  "emptyOption = \<lparr>option_text = ''A'', voterIds = [], existingVotes = 0\<rparr>"

definition optionB :: poll_option where
  "optionB = \<lparr>option_text = ''B'', voterIds = [], existingVotes = 0\<rparr>"

definition trackedPoll :: poll where
  "trackedPoll =
     \<lparr>pollId = Some ''5301234567890123456'', chatId = 1, messageId = 10,
      options = [threePlaceholders, optionB],
      mentions = [], isMultipleChoice = False, isClosed = False, isTracked = True,
      total_voter_count = Some 3, originalPollId = None, updatedAt = 0\<rparr>"

definition freshPoll :: poll where
  "freshPoll = trackedPoll\<lparr>options := [emptyOption, optionB], total_voter_count := Some 0\<rparr>"

definition closedPoll :: poll where
  "closedPoll = freshPoll\<lparr>isClosed := True\<rparr>"

definition untrackedPoll :: poll where
  "untrackedPoll = freshPoll\<lparr>isTracked := False\<rparr>"

text \<open>A snapshot of the example poll: the observed total and the per-option counts.\<close>

definition snapshot :: "int \<Rightarrow> int option list \<Rightarrow> telegram_poll" where
  "snapshot t os =
     \<lparr>tg_id = Some ''5301234567890123456'', tg_total_voter_count = Some t,
      tg_options = Some os\<rparr>"

definition refreshReply :: "telegram_poll \<Rightarrow> refresh_command" where
  "refreshReply tp = \<lparr>isAnyGroup = True, chat_id = 1, reply_to_message = Some (10, Some tp)\<rparr>"

text \<open>
  A database that answers the two regular-expression queries for every pattern as it does
  for digits: the unanchored query is containment, the anchored one a prefix test, and
  neither throws.
\<close>

definition digitsEnv :: search_env where
  "digitsEnv =
     \<lparr>regex_i = (\<lambda>pat. Some (containsDigits pat)),
      regex_prefix = (\<lambda>pat. Some (\<lambda>s. take (length pat) s = pat))\<rparr>"

definition voter555 :: telegram_user where
  "voter555 = \<lparr>user_id = 555, user_username = Some ''ann'', first_name = Some ''Ann'',
               last_name = None\<rparr>"

definition answer :: "string \<Rightarrow> int list \<Rightarrow> poll_answer" where
  "answer pid ids = \<lparr>poll_id = Some pid, user = Some voter555, option_ids = ids\<rparr>"

definition optionA5 :: poll_option where
  "optionA5 = \<lparr>option_text = ''A'', voterIds = [10, 20, -1000001], existingVotes = 3\<rparr>"

definition optionB5 :: poll_option where
  "optionB5 = \<lparr>option_text = ''B'', voterIds = [20, -2000001, -2000002], existingVotes = 3\<rparr>"

text \<open>An open poll whose id the platform has rotated.\<close>

definition rotatedPoll :: poll where
  "rotatedPoll =
     freshPoll\<lparr>pollId := Some ''7700000000000000001'',
               originalPollId := Some ''5301234567890123456'', messageId := 11\<rparr>"

text \<open>The fresh poll after user 555 voted for option 0, with 555 on the mention roster.\<close>

definition votedPoll :: poll where
  "votedPoll =
     freshPoll\<lparr>options := [\<lparr>option_text = ''A'', voterIds = [555], existingVotes = 1\<rparr>,
                            optionB],
               mentions := [\<lparr>userId = None, username = Some ''ann'', firstName = None,
                             lastName = None, voted = False\<rparr>],
               total_voter_count := Some 1\<rparr>"

text \<open>
  Three more open polls: the example poll updated at time 50, one whose id starts with
  1234567890, and one with another id updated at time 50.
\<close>

definition recentPoll :: poll where
  "recentPoll = freshPoll\<lparr>updatedAt := 50\<rparr>"

definition startsPoll :: poll where
  "startsPoll = freshPoll\<lparr>pollId := Some ''1234567890555555555'', messageId := 12\<rparr>"

definition laterPoll :: poll where
  "laterPoll = freshPoll\<lparr>pollId := Some ''7700000000000000001'', messageId := 13,
                         updatedAt := 50\<rparr>"

section \<open>Manual refresh: decreases\<close>

lemma mset_filter_mem_distinct:
  assumes "distinct xs" "distinct ys" "set ys \<subseteq> set xs"
  shows "mset (filter (\<lambda>x. x \<in> set ys) xs) = mset ys"
proof -
  have "set (filter (\<lambda>x. x \<in> set ys) xs) = set ys" using assms(3) by auto
  moreover have "distinct (filter (\<lambda>x. x \<in> set ys) xs)" using assms(1) by simp
  ultimately show ?thesis using assms(2) set_eq_iff_mset_eq_distinct by blast
qed

lemma refreshOption_decrease:
  assumes "n < existingVotes opt"
  shows "refreshOption i (Some n) opt =
         opt\<lparr>voterIds := filter (\<lambda>id. id \<notin> set (take (nat (existingVotes opt - n))
                               (sort (filter (\<lambda>id. id < 0) (voterIds opt))))) (voterIds opt),
             existingVotes := n\<rparr>"
proof -
  have "\<bar>n - existingVotes opt\<bar> = existingVotes opt - n" using assms by simp
  then show ?thesis using assms by (simp add: refreshOption_def Let_def)
qed

lemma lowest_removed:
  fixes ids :: "int list"
  assumes dist: "distinct (filter (\<lambda>id. id < 0) ids)"
    and enough: "d \<le> length (filter (\<lambda>id. id < 0) ids)"
  defines "removed \<equiv> take d (sort (filter (\<lambda>id. id < 0) ids))"
  defines "kept \<equiv> filter (\<lambda>id. id \<notin> set removed) ids"
  shows "length removed = d"
    and "mset ids = mset kept + mset removed"
    and "\<forall>r\<in>set removed. r < 0 \<and> (\<forall>k\<in>set kept. k < 0 \<longrightarrow> r < k)"
proof -
  let ?negs = "filter (\<lambda>id. id < 0) ids"
  show "length removed = d" using enough by (simp add: removed_def)
  have sub: "set removed \<subseteq> set ?negs"
    unfolding removed_def using set_take_subset[of d "sort ?negs"] by simp
  have dr: "distinct removed" unfolding removed_def using dist by simp
  have f: "filter (\<lambda>x. x \<in> set removed) ids = filter (\<lambda>x. x \<in> set removed) ?negs"
    unfolding filter_filter by (rule filter_cong) (use sub in auto)
  have a: "mset (filter (\<lambda>x. x \<in> set removed) ids) = mset removed"
    unfolding f by (rule mset_filter_mem_distinct[OF dist dr sub])
  have b: "mset ids = mset (filter (\<lambda>x. x \<notin> set removed) ids)
                      + mset (filter (\<lambda>x. x \<in> set removed) ids)"
    by (induction ids) simp_all
  show "mset ids = mset kept + mset removed" unfolding kept_def by (rule b[unfolded a])
  have split: "set (sort ?negs) = set (take d (sort ?negs)) \<union> set (drop d (sort ?negs))"
    by (metis append_take_drop_id set_append)
  have srt: "sorted (take d (sort ?negs) @ drop d (sort ?negs))" by simp
  show "\<forall>r\<in>set removed. r < 0 \<and> (\<forall>k\<in>set kept. k < 0 \<longrightarrow> r < k)"
  proof (intro ballI conjI impI)
    fix r assume r: "r \<in> set removed"
    then show "r < 0" using sub by auto
    fix k assume k: "k \<in> set kept" "k < 0"
    then have kn: "k \<in> set ?negs" and knr: "k \<notin> set removed" by (auto simp: kept_def)
    from kn have "k \<in> set (sort ?negs)" by simp
    with split knr have kd: "k \<in> set (drop d (sort ?negs))" unfolding removed_def by blast
    from srt r kd have "r \<le> k" unfolding removed_def sorted_append by blast
    moreover have "r \<noteq> k" using r knr by auto
    ultimately show "r < k" by simp
  qed
qed

text \<open>
  Claim C1, as the code has it. When the manual refresh command observes for an option a
  voter count \<open>n\<close> below its \<open>existingVotes\<close>, it sets \<open>existingVotes\<close> to \<open>n\<close> and never
  removes a non-negative id; and when the option holds at least \<open>d = existingVotes - n\<close>
  placeholder ids, all distinct, it removes exactly \<open>d\<close> of them, namely the ones farthest
  from zero: every removed id is negative and lies strictly below every negative id that
  is kept. (The claim has the ids closest to zero removed.)
\<close>

theorem refreshpoll_decrease_removes_lowest_placeholders:
  assumes "n < existingVotes opt"
  shows "existingVotes (refreshOption i (Some n) opt) = n \<and>
         filter (\<lambda>id. 0 \<le> id) (voterIds (refreshOption i (Some n) opt))
           = filter (\<lambda>id. 0 \<le> id) (voterIds opt) \<and>
         (distinct (filter (\<lambda>id. id < 0) (voterIds opt)) \<and>
          nat (existingVotes opt - n) \<le> length (filter (\<lambda>id. id < 0) (voterIds opt)) \<longrightarrow>
            (\<exists>removed.
               length removed = nat (existingVotes opt - n) \<and>
               mset (voterIds opt) = mset (voterIds (refreshOption i (Some n) opt)) + mset removed \<and>
               (\<forall>r\<in>set removed. r < 0 \<and>
                  (\<forall>k\<in>set (voterIds (refreshOption i (Some n) opt)). k < 0 \<longrightarrow> r < k))))"
proof (intro conjI impI)
  let ?d = "nat (existingVotes opt - n)"
  let ?removed = "take ?d (sort (filter (\<lambda>id. id < 0) (voterIds opt)))"
  have ids: "voterIds (refreshOption i (Some n) opt)
             = filter (\<lambda>id. id \<notin> set ?removed) (voterIds opt)"
    by (simp add: refreshOption_decrease[OF assms])
  show "existingVotes (refreshOption i (Some n) opt) = n"
    by (simp add: refreshOption_decrease[OF assms])
  have "set ?removed \<subseteq> set (filter (\<lambda>id. id < 0) (voterIds opt))"
    using set_take_subset[of ?d "sort (filter (\<lambda>id. id < 0) (voterIds opt))"] by simp
  then have neg: "\<And>x. 0 \<le> x \<Longrightarrow> x \<notin> set ?removed" by auto
  show "filter (\<lambda>id. 0 \<le> id) (voterIds (refreshOption i (Some n) opt))
        = filter (\<lambda>id. 0 \<le> id) (voterIds opt)"
    unfolding ids filter_filter by (rule filter_cong) (use neg in auto)
  assume h: "distinct (filter (\<lambda>id. id < 0) (voterIds opt)) \<and>
             ?d \<le> length (filter (\<lambda>id. id < 0) (voterIds opt))"
  note lr = lowest_removed[OF conjunct1[OF h] conjunct2[OF h]]
  show "\<exists>removed.
          length removed = ?d \<and>
          mset (voterIds opt) = mset (voterIds (refreshOption i (Some n) opt)) + mset removed \<and>
          (\<forall>r\<in>set removed. r < 0 \<and>
             (\<forall>k\<in>set (voterIds (refreshOption i (Some n) opt)). k < 0 \<longrightarrow> r < k))"
    unfolding ids by (rule exI[of _ ?removed]) (intro conjI lr)
qed

theorem refreshpoll_decrease_witness:
  "1 < existingVotes threePlaceholders \<and>
   existingVotes (refreshOption 0 (Some 1) threePlaceholders) = 1 \<and>
   voterIds (refreshOption 0 (Some 1) threePlaceholders) = [-1000001] \<and>
   filter (\<lambda>id. 0 \<le> id) (voterIds (refreshOption 0 (Some 1) threePlaceholders)) = [] \<and>
   (\<exists>removed.
      length removed = 2 \<and>
      mset (voterIds threePlaceholders)
        = mset (voterIds (refreshOption 0 (Some 1) threePlaceholders)) + mset removed \<and>
      (\<forall>r\<in>set removed. r < 0 \<and>
         (\<forall>k\<in>set (voterIds (refreshOption 0 (Some 1) threePlaceholders)). k < 0 \<longrightarrow> r < k)))"
proof -
  have h: "1 < existingVotes threePlaceholders" by (simp add: threePlaceholders_def)
  have v: "voterIds (refreshOption 0 (Some 1) threePlaceholders) = [-1000001]"
    by (simp add: refreshOption_def threePlaceholders_def)
  have d: "distinct (filter (\<lambda>id. id < 0) (voterIds threePlaceholders)) \<and>
           nat (existingVotes threePlaceholders - 1)
             \<le> length (filter (\<lambda>id. id < 0) (voterIds threePlaceholders))"
    by (simp add: threePlaceholders_def)
  have e: "nat (existingVotes threePlaceholders - 1) = 2" by (simp add: threePlaceholders_def)
  from refreshpoll_decrease_removes_lowest_placeholders[OF h, of 0] d e h v
  show ?thesis by simp
qed

text \<open>
  Claim C1 fails as stated: for option 0 with placeholders -1000001, -1000002, -1000003
  and \<open>existingVotes = 3\<close>, the observation 1 keeps -1000001 and removes -1000003.
\<close>

theorem refreshpoll_decrease_counterexample:
  "voterIds (refreshOption 0 (Some 1) threePlaceholders) = [-1000001] \<and>
   - 1000003 \<notin> set (voterIds (refreshOption 0 (Some 1) threePlaceholders)) \<and>
   - 1000001 \<in> set (voterIds (refreshOption 0 (Some 1) threePlaceholders))"
  by (simp add: refreshOption_def threePlaceholders_def)

section \<open>The loop over options and the lookups\<close>

lemma length_forOptions: "length (forOptions f i ts ds) = length ds"
  by (induction f i ts ds rule: forOptions.induct) simp_all

lemma nth_forOptions:
  "k < length ds \<Longrightarrow>
   forOptions f i ts ds ! k = (if k < length ts then f (i + k) (ts ! k) (ds ! k) else ds ! k)"
proof (induction f i ts ds arbitrary: k rule: forOptions.induct)
  case (1 f i t ts d ds)
  then show ?case by (cases k) simp_all
qed simp_all

lemma findOne_Some:
  assumes "findOne q db = Some i"
  shows "i < length db \<and> q (db ! i) \<and> (\<forall>j<i. \<not> q (db ! j))"
proof -
  from assms obtain x where x: "find (\<lambda>(i, d). q d) (enumerate 0 db) = Some x" "fst x = i"
    by (auto simp: findOne_def)
  then obtain m where m: "m < length db" "(\<lambda>(i, d). q d) (enumerate 0 db ! m)"
      "x = enumerate 0 db ! m" "\<forall>j<m. \<not> (\<lambda>(i, d). q d) (enumerate 0 db ! j)"
    unfolding find_Some_iff by auto
  from m(1,3) x(2) have "i = m" by (simp add: nth_enumerate_eq)
  with m show ?thesis by (auto simp: nth_enumerate_eq)
qed

lemma findByPollId_Some: "findByPollId pid db = Some i \<Longrightarrow> i < length db"
  by (auto simp: findByPollId_def split: option.splits dest: findOne_Some)

section \<open>Snapshot push and periodic refresh: decreases\<close>

lemma pollUpdateOption_lower: "n \<le> existingVotes d \<Longrightarrow> pollUpdateOption i (Some n) d = d"
  by (simp add: pollUpdateOption_def Let_def)

lemma updateTrackedOption_lower: "n \<le> existingVotes d \<Longrightarrow> updateTrackedOption i (Some n) d = d"
  by (simp add: updateTrackedOption_def Let_def)

text \<open>
  Claim C3, as the code has it. On a snapshot push and on the periodic refresh, an option
  whose observed \<open>voter_count\<close> is lower than its \<open>existingVotes\<close> is left as it is: no
  placeholder id is removed and \<open>existingVotes\<close> keeps its value. Both paths reconcile
  increases only.
\<close>

theorem aggregate_push_and_scheduler_ignore_decreases:
  assumes "tg_options tp = Some tos" "k < length tos" "k < length (options p)"
    and "tos ! k = Some n" "n < existingVotes (options p ! k)"
  shows "options (pollUpdate tp p) ! k = options p ! k \<and>
         options (updateTrackedPoll now (Some tp) p) ! k = options p ! k"
  using assms
  by (simp add: pollUpdate_def updateTrackedPoll_def nth_forOptions pollUpdateOption_lower
      updateTrackedOption_lower Let_def split: option.splits)

theorem aggregate_push_and_scheduler_ignore_decreases_witness:
  "tg_options (snapshot 1 [Some 1, Some 0]) = Some [Some 1, Some 0] \<and>
   [Some 1, Some 0] ! 0 = Some (1::int) \<and>
   1 < existingVotes (options trackedPoll ! 0) \<and>
   options (pollUpdate (snapshot 1 [Some 1, Some 0]) trackedPoll) ! 0 = threePlaceholders \<and>
   options (updateTrackedPoll 100 (Some (snapshot 1 [Some 1, Some 0])) trackedPoll) ! 0
     = threePlaceholders"
proof -
  have a: "tg_options (snapshot 1 [Some 1, Some 0]) = Some [Some 1, Some 0]"
    by (simp add: snapshot_def)
  have b: "(0::nat) < length [Some (1::int), Some 0]" by simp
  have c: "0 < length (options trackedPoll)" by (simp add: trackedPoll_def)
  have d: "[Some 1, Some 0] ! 0 = Some (1::int)" by simp
  have e: "1 < existingVotes (options trackedPoll ! 0)"
    by (simp add: trackedPoll_def threePlaceholders_def)
  have f: "options trackedPoll ! 0 = threePlaceholders" by (simp add: trackedPoll_def)
  from aggregate_push_and_scheduler_ignore_decreases[OF a b c d e, of 100] a d e f
  show ?thesis by simp
qed

text \<open>
  Claim C3 fails as stated: the tracked open example poll holds three placeholders with
  \<open>existingVotes = 3\<close> on option 0; a snapshot push and a scheduler pass observing
  \<open>voter_count = 1\<close> both leave the three placeholders and \<open>existingVotes = 3\<close>.
\<close>

theorem aggregate_decrease_counterexample:
  "on_poll 100 (Some (snapshot 1 [Some 1, Some 0])) [trackedPoll]
     = [trackedPoll\<lparr>total_voter_count := Some 1, updatedAt := 100\<rparr>] \<and>
   updateTrackedPolls 100 True (\<lambda>d. Some (snapshot 1 [Some 1, Some 0])) [trackedPoll]
     = [trackedPoll\<lparr>total_voter_count := Some 1, updatedAt := 100\<rparr>] \<and>
   existingVotes (options trackedPoll ! 0) = 3 \<and>
   voterIds (options trackedPoll ! 0) = [-1000001, -1000002, -1000003]"
proof (intro conjI)
  show "on_poll 100 (Some (snapshot 1 [Some 1, Some 0])) [trackedPoll]
          = [trackedPoll\<lparr>total_voter_count := Some 1, updatedAt := 100\<rparr>]"
    by (simp add: on_poll_def snapshot_def trackedPoll_def findByPollId_def findOne_def
        enumerate_eq_zip save_def pollUpdate_def pollUpdateOption_def threePlaceholders_def
        optionB_def)
  show "updateTrackedPolls 100 True (\<lambda>d. Some (snapshot 1 [Some 1, Some 0])) [trackedPoll]
          = [trackedPoll\<lparr>total_voter_count := Some 1, updatedAt := 100\<rparr>]"
    by (simp add: updateTrackedPolls_def findMany_def snapshot_def trackedPoll_def
        enumerate_eq_zip updateTrackedPoll_def updateTrackedOption_def threePlaceholders_def
        optionB_def MAX_POLLS_TO_CHECK_def)
  show "existingVotes (options trackedPoll ! 0) = 3"
    by (simp add: trackedPoll_def threePlaceholders_def)
  show "voterIds (options trackedPoll ! 0) = [-1000001, -1000002, -1000003]"
    by (simp add: trackedPoll_def threePlaceholders_def)
qed

section \<open>Closed polls\<close>

lemma save_nth:
  "i < length db \<Longrightarrow>
   options (save now i d db ! i) = options d \<and>
   total_voter_count (save now i d db ! i) = total_voter_count d"
  by (cases "d = db ! i") (simp_all add: save_def)

lemma save_other: "j \<noteq> i \<Longrightarrow> save now i d db ! j = db ! j"
  by (simp add: save_def)

lemma length_save: "length (save now i d db) = length db"
  by (simp add: save_def)

text \<open>
  The snapshot push, the named vote event and the periodic refresh leave every closed
  document as it is.
\<close>

lemma on_poll_keeps_closed:
  assumes "isClosed (db ! k)"
  shows "on_poll now e db ! k = db ! k"
proof (cases "\<exists>tp pid i. e = Some tp \<and> tg_id tp = Some pid \<and> pid \<noteq> [] \<and>
                findByPollId pid db = Some i \<and> \<not> isClosed (db ! i)")
  case True
  then obtain tp pid i where h: "e = Some tp" "tg_id tp = Some pid" "pid \<noteq> []"
      "findByPollId pid db = Some i" "\<not> isClosed (db ! i)" by blast
  then have "i \<noteq> k" using assms by auto
  then show ?thesis using h by (simp add: on_poll_def save_other)
next
  case False
  then show ?thesis by (auto simp: on_poll_def split: option.splits)
qed

lemma on_poll_answer_keeps_closed:
  assumes "isClosed (db ! k)"
  shows "on_poll_answer env now e db ! k = db ! k"
proof (cases "\<exists>a pid u i. e = Some a \<and> poll_id a = Some pid \<and> pid \<noteq> [] \<and> user a = Some u \<and>
                resolveAnswerPoll env pid db = Some i \<and> \<not> isClosed (db ! i)")
  case True
  then obtain a pid u i where h: "e = Some a" "poll_id a = Some pid" "pid \<noteq> []" "user a = Some u"
      "resolveAnswerPoll env pid db = Some i" "\<not> isClosed (db ! i)" by blast
  then have "i \<noteq> k" using assms by auto
  then show ?thesis using h by (simp add: on_poll_answer_def)
next
  case False
  then show ?thesis by (auto simp: on_poll_answer_def split: option.splits)
qed

lemma findMany_mem:
  "(i, d) \<in> set (findMany q db) \<longleftrightarrow> i < length db \<and> d = db ! i \<and> q d"
  by (auto simp: findMany_def in_set_enumerate_eq)

lemma fold_update_other:
  "k \<notin> fst ` set xs \<Longrightarrow> fold (\<lambda>(i, d) db'. db'[i := g d]) xs db ! k = db ! k"
  by (induction xs arbitrary: db) (auto simp: case_prod_beta)

lemma updateTrackedPolls_keeps_closed:
  assumes "isClosed (db ! k)"
  shows "updateTrackedPolls now ready fetch db ! k = db ! k"
proof (cases ready)
  case True
  let ?q = "\<lambda>d. isTracked d \<and> \<not> isClosed d"
  let ?xs = "take MAX_POLLS_TO_CHECK (sort_key (\<lambda>(i, d). updatedAt d) (findMany ?q db))"
  have "set ?xs \<subseteq> set (findMany ?q db)"
    using set_take_subset[of MAX_POLLS_TO_CHECK "sort_key (\<lambda>(i, d). updatedAt d) (findMany ?q db)"]
    by simp
  then have "k \<notin> fst ` set ?xs" using assms by (auto simp: findMany_mem)
  then show ?thesis using True by (simp add: updateTrackedPolls_def fold_update_other)
qed (simp add: updateTrackedPolls_def)

text \<open>
  Claim C2 at the input where the code departs from it: the manual refresh command has
  no check of \<open>isClosed\<close>. Replying to the closed, tracked example poll with a snapshot that
  counts 2 voters on option 0 gives that option two placeholder ids and
  \<open>existingVotes = 2\<close>, and overwrites \<open>total_voter_count\<close>.
\<close>

theorem refreshpoll_mutates_closed_poll:
  "isClosed closedPoll \<and>
   refreshpoll 100 (refreshReply (snapshot 2 [Some 2, Some 0])) [closedPoll]
     = [closedPoll\<lparr>options := [\<lparr>option_text = ''A'', voterIds = [-1000001, -1000002],
                                   existingVotes = 2\<rparr>, optionB],
                    total_voter_count := Some 2, updatedAt := 100\<rparr>]"
  by (simp add: refreshpoll_def refreshReply_def findOne_def snapshot_def closedPoll_def
      freshPoll_def trackedPoll_def enumerate_eq_zip refreshPollUpdate_def refreshOption_def
      emptyOption_def optionB_def placeholderRun_def upt_rec)

section \<open>Placeholder allocation\<close>

lemma placeholderRun_le: "x \<in> set (placeholderRun s m) \<Longrightarrow> x \<le> s"
  by (auto simp: placeholderRun_def)

lemma distinct_placeholderRun: "distinct (placeholderRun s m)"
  by (simp add: placeholderRun_def distinct_map inj_on_def)

lemma length_placeholderRun: "length (placeholderRun s m) = m"
  by (simp add: placeholderRun_def)

lemma pollUpdateOption_allocates_fresh:
  fixes i :: nat
  assumes "existingVotes d < n"
  defines "negs \<equiv> filter (\<lambda>id. id < 0) (voterIds d)"
  defines "start \<equiv> (if negs \<noteq> [] then Min (set negs) - 1 else - 1000000 * (int i + 1) - 1)"
  defines "new \<equiv> placeholderRun start (nat (n - existingVotes d))"
  shows "pollUpdateOption i (Some n) d = d\<lparr>voterIds := voterIds d @ new, existingVotes := n\<rparr>"
    and "length new = nat (n - existingVotes d)"
    and "distinct new"
    and "\<forall>x\<in>set new. x < 0 \<and> x \<notin> set (voterIds d)"
proof -
  show "pollUpdateOption i (Some n) d = d\<lparr>voterIds := voterIds d @ new, existingVotes := n\<rparr>"
    using assms(1) by (simp add: pollUpdateOption_def Let_def new_def start_def negs_def)
  show "length new = nat (n - existingVotes d)" by (simp add: new_def length_placeholderRun)
  show "distinct new" by (simp add: new_def distinct_placeholderRun)
  show "\<forall>x\<in>set new. x < 0 \<and> x \<notin> set (voterIds d)"
  proof
    fix x assume "x \<in> set new"
    then have le: "x \<le> start" unfolding new_def by (rule placeholderRun_le)
    show "x < 0 \<and> x \<notin> set (voterIds d)"
    proof (cases "negs = []")
      case True
      then have "start < 0" by (simp add: start_def)
      with le have x: "x < 0" by simp
      moreover have "x \<notin> set (voterIds d)"
      proof
        assume "x \<in> set (voterIds d)"
        with x have "x \<in> set negs" by (simp add: negs_def)
        with True show False by simp
      qed
      ultimately show ?thesis by simp
    next
      case False
      then have mn: "Min (set negs) \<in> set negs" by (simp add: Min_in)
      then have m0: "Min (set negs) < 0" by (simp add: negs_def)
      have st: "start = Min (set negs) - 1" using False by (simp add: start_def)
      from le st have lt: "x < Min (set negs)" by linarith
      with m0 have x: "x < 0" by linarith
      moreover have "x \<notin> set (voterIds d)"
      proof
        assume "x \<in> set (voterIds d)"
        with x have "x \<in> set negs" by (simp add: negs_def)
        then have "Min (set negs) \<le> x" by simp
        with lt show False by linarith
      qed
      ultimately show ?thesis by simp
    qed
  qed
qed

text \<open>On every aggregate path an empty option 0 observed at 3 voters gains the ids
  -1000001, -1000002, -1000003 and \<open>existingVotes = 3\<close>.\<close>

lemma empty_option_gains_three:
  "pollUpdateOption 0 (Some 3) emptyOption
     = emptyOption\<lparr>voterIds := [-1000001, -1000002, -1000003], existingVotes := 3\<rparr> \<and>
   updateTrackedOption 0 (Some 3) emptyOption
     = emptyOption\<lparr>voterIds := [-1000001, -1000002, -1000003], existingVotes := 3\<rparr> \<and>
   refreshOption 0 (Some 3) emptyOption
     = emptyOption\<lparr>voterIds := [-1000001, -1000002, -1000003], existingVotes := 3\<rparr>"
  by (simp add: pollUpdateOption_def updateTrackedOption_def refreshOption_def emptyOption_def
      placeholderRun_def upt_rec)

text \<open>
  Claim C6 at the input where the code departs from it: the periodic refresh looks for
  existing placeholders among the ids \<open>\<ge> baseId\<close>, where the ids it allocates never are,
  so it starts every batch at \<open>baseId - 1\<close>. Two passes observing 1 and then 2 voters on
  option 0 of the fresh example poll allocate -1000001 twice; the same two observations
  pushed as snapshots allocate -1000001 and -1000002.
\<close>

theorem scheduler_reallocates_placeholder:
  "options (updateTrackedPoll 200 (Some (snapshot 2 [Some 2, Some 0]))
             (updateTrackedPoll 100 (Some (snapshot 1 [Some 1, Some 0])) freshPoll)) ! 0
     = \<lparr>option_text = ''A'', voterIds = [-1000001, -1000001], existingVotes = 2\<rparr> \<and>
   options (pollUpdate (snapshot 2 [Some 2, Some 0])
             (pollUpdate (snapshot 1 [Some 1, Some 0]) freshPoll)) ! 0
     = \<lparr>option_text = ''A'', voterIds = [-1000001, -1000002], existingVotes = 2\<rparr>"
  by (simp add: updateTrackedPoll_def updateTrackedOption_def pollUpdate_def pollUpdateOption_def
      snapshot_def freshPoll_def trackedPoll_def emptyOption_def optionB_def placeholderRun_def upt_rec)

section \<open>Snapshot push on an untracked poll\<close>

text \<open>
  Claim C10. When a snapshot push resolves to an open document whose \<open>isTracked\<close> is
  false, the saved document has the options it had (no placeholder added, every
  \<open>voterIds\<close> and \<open>existingVotes\<close> unchanged) and the observed total as
  \<open>total_voter_count\<close>; no other document changes.
\<close>

theorem snapshot_push_untracked_poll:
  assumes "tg_id tp = Some pid" "pid \<noteq> []" "findByPollId pid db = Some i"
    and "\<not> isClosed (db ! i)" "\<not> isTracked (db ! i)"
  shows "options (on_poll now (Some tp) db ! i) = options (db ! i) \<and>
         total_voter_count (on_poll now (Some tp) db ! i) = tg_total_voter_count tp \<and>
         length (on_poll now (Some tp) db) = length db \<and>
         (\<forall>j. j \<noteq> i \<longrightarrow> on_poll now (Some tp) db ! j = db ! j)"
proof -
  have i: "i < length db" using assms(3) by (rule findByPollId_Some)
  have u: "pollUpdate tp (db ! i) = (db ! i)\<lparr>total_voter_count := tg_total_voter_count tp\<rparr>"
    using assms(5) by (simp add: pollUpdate_def Let_def split: option.splits)
  have o: "on_poll now (Some tp) db = save now i (pollUpdate tp (db ! i)) db"
    using assms by (simp add: on_poll_def)
  show ?thesis unfolding o using i
    by (simp add: save_nth save_other length_save u)
qed

theorem snapshot_push_untracked_poll_witness:
  "tg_id (snapshot 7 [Some 4, Some 3]) = Some ''5301234567890123456'' \<and>
   findByPollId ''5301234567890123456'' [untrackedPoll] = Some 0 \<and>
   isClosed ([untrackedPoll] ! 0) = False \<and> isTracked ([untrackedPoll] ! 0) = False \<and>
   options (on_poll 100 (Some (snapshot 7 [Some 4, Some 3])) [untrackedPoll] ! 0)
     = [emptyOption, optionB] \<and>
   total_voter_count (on_poll 100 (Some (snapshot 7 [Some 4, Some 3])) [untrackedPoll] ! 0)
     = Some 7"
proof -
  have a: "tg_id (snapshot 7 [Some 4, Some 3]) = Some ''5301234567890123456''"
    by (simp add: snapshot_def)
  have b: "''5301234567890123456'' \<noteq> []" by simp
  have c: "findByPollId ''5301234567890123456'' [untrackedPoll] = Some 0"
    by (simp add: findByPollId_def findOne_def enumerate_eq_zip untrackedPoll_def freshPoll_def
        trackedPoll_def)
  have d: "\<not> isClosed ([untrackedPoll] ! 0)"
    by (simp add: untrackedPoll_def freshPoll_def trackedPoll_def)
  have e: "\<not> isTracked ([untrackedPoll] ! 0)"
    by (simp add: untrackedPoll_def freshPoll_def trackedPoll_def)
  have f: "options ([untrackedPoll] ! 0) = [emptyOption, optionB]"
    by (simp add: untrackedPoll_def freshPoll_def trackedPoll_def)
  have g: "tg_total_voter_count (snapshot 7 [Some 4, Some 3]) = Some 7"
    by (simp add: snapshot_def)
  from snapshot_push_untracked_poll[OF a b c d e, of 100] a c d e f g
  show ?thesis by simp
qed

section \<open>Total recomputation\<close>

lemma addPositive_set:
  "set (fold (\<lambda>id acc'. if id > 0 then List.insert id acc' else acc') ids acc)
     = set acc \<union> {u \<in> set ids. 0 < u}"
  by (induction ids arbitrary: acc) auto

lemma addPositive_distinct:
  "distinct acc \<Longrightarrow>
   distinct (fold (\<lambda>id acc'. if id > 0 then List.insert id acc' else acc') ids acc)"
  by (induction ids arbitrary: acc) auto

lemma uniqueVoters_fold_set:
  "set (fold (\<lambda>opt acc. fold (\<lambda>id acc'. if id > 0 then List.insert id acc' else acc')
                        (voterIds opt) acc) opts acc0)
     = set acc0 \<union> {u. 0 < u \<and> (\<exists>opt\<in>set opts. u \<in> set (voterIds opt))}"
  by (induction opts arbitrary: acc0) (auto simp: addPositive_set)

lemma uniqueVoters_fold_distinct:
  "distinct acc0 \<Longrightarrow>
   distinct (fold (\<lambda>opt acc. fold (\<lambda>id acc'. if id > 0 then List.insert id acc' else acc')
                        (voterIds opt) acc) opts acc0)"
  by (induction opts arbitrary: acc0) (auto simp: addPositive_distinct)

lemma length_uniqueVoters:
  "length (uniqueVoters opts) = card {u. 0 < u \<and> (\<exists>opt\<in>set opts. u \<in> set (voterIds opt))}"
proof -
  have "distinct (uniqueVoters opts)" unfolding uniqueVoters_def
    by (rule uniqueVoters_fold_distinct) simp
  then have "length (uniqueVoters opts) = card (set (uniqueVoters opts))"
    by (simp add: distinct_card)
  also have "set (uniqueVoters opts) = {u. 0 < u \<and> (\<exists>opt\<in>set opts. u \<in> set (voterIds opt))}"
    unfolding uniqueVoters_def by (simp add: uniqueVoters_fold_set)
  finally show ?thesis .
qed

lemma placeholderVotes_fold:
  "fold (\<lambda>opt sum. sum + int (length (filter (\<lambda>id. id < 0) (voterIds opt)))) opts a
     = a + (\<Sum>opt\<leftarrow>opts. int (length (filter (\<lambda>id. id < 0) (voterIds opt))))"
  by (induction opts arbitrary: a) simp_all

lemma pollAnswerUpdate_total:
  "total_voter_count (pollAnswerUpdate now u ids p)
     = Some (newTotalVoterCount (options (pollAnswerUpdate now u ids p)))"
  by (simp add: pollAnswerUpdate_def Let_def)

text \<open>
  Claim C5. The recomputed total is the number of distinct positive ids across all
  options plus the sum over the options of the number of negative ids; the named-vote
  handler stores exactly this value as \<open>total_voter_count\<close>; and for option A with
  \<open>voterIds = [10, 20, -1000001]\<close> and option B with \<open>[20, -2000001, -2000002]\<close> it is
  2 + 3 = 5.
\<close>

theorem total_recompute:
  "newTotalVoterCount opts
     = int (card {u. 0 < u \<and> (\<exists>opt\<in>set opts. u \<in> set (voterIds opt))})
       + (\<Sum>opt\<leftarrow>opts. int (length (filter (\<lambda>id. id < 0) (voterIds opt)))) \<and>
   total_voter_count (pollAnswerUpdate now u ids p)
     = Some (newTotalVoterCount (options (pollAnswerUpdate now u ids p))) \<and>
   newTotalVoterCount [optionA5, optionB5] = 5"
proof (intro conjI)
  show "newTotalVoterCount opts
     = int (card {u. 0 < u \<and> (\<exists>opt\<in>set opts. u \<in> set (voterIds opt))})
       + (\<Sum>opt\<leftarrow>opts. int (length (filter (\<lambda>id. id < 0) (voterIds opt))))"
    by (simp add: newTotalVoterCount_def length_uniqueVoters placeholderVotes_def
        placeholderVotes_fold)
  show "total_voter_count (pollAnswerUpdate now u ids p)
     = Some (newTotalVoterCount (options (pollAnswerUpdate now u ids p)))"
    by (rule pollAnswerUpdate_total)
  show "newTotalVoterCount [optionA5, optionB5] = 5"
    by (simp add: newTotalVoterCount_def uniqueVoters_def placeholderVotes_def optionA5_def
        optionB5_def)
qed

section \<open>Poll lookup of a vote event\<close>

lemma prefixSearch_mem:
  "prefixSearch env pre db = Some found \<Longrightarrow> (i, d) \<in> set found \<Longrightarrow>
   i < length db \<and> d = db ! i \<and> \<not> isClosed d"
  by (auto simp: prefixSearch_def findMany_mem prefixQuery_def split: option.splits)

lemma scanActivePolls_mem:
  assumes "(i, d) \<in> set (scanActivePolls env pid db)"
  shows "i < length db \<and> d = db ! i \<and> \<not> isClosed d"
proof (cases "prefixSearch env (take 10 pid) db")
  case None
  then show ?thesis using assms by (auto simp: scanActivePolls_def findMany_mem openQuery_def)
next
  case (Some found)
  show ?thesis
  proof (cases "found = []")
    case True
    then show ?thesis using assms Some
      by (auto simp: scanActivePolls_def findMany_mem openQuery_def)
  next
    case False
    then have "(i, d) \<in> set found" using assms Some by (simp add: scanActivePolls_def)
    then show ?thesis using prefixSearch_mem[OF Some] by blast
  qed
qed

lemma scanActivePolls_covers:
  "scanActivePolls env pid db = [] \<Longrightarrow> findMany openQuery db = []"
  by (auto simp: scanActivePolls_def Let_def split: option.splits if_splits)

lemma scanActivePolls_empty_iff:
  "scanActivePolls env pid db = [] \<longleftrightarrow> findMany openQuery db = []"
proof
  assume "findMany openQuery db = []"
  show "scanActivePolls env pid db = []"
  proof (rule ccontr)
    assume "scanActivePolls env pid db \<noteq> []"
    then obtain i d where "(i, d) \<in> set (scanActivePolls env pid db)"
      by (cases "scanActivePolls env pid db") auto
    then have "i < length db \<and> d = db ! i \<and> \<not> isClosed d" by (rule scanActivePolls_mem)
    then have "(i, d) \<in> set (findMany openQuery db)" by (auto simp: findMany_mem openQuery_def)
    with \<open>findMany openQuery db = []\<close> show False by simp
  qed
qed (rule scanActivePolls_covers)

lemma hd_sort_key_least:
  fixes f :: "'a \<Rightarrow> int"
  assumes "xs \<noteq> []"
  shows "hd (sort_key f xs) \<in> set xs \<and> (\<forall>x\<in>set xs. f (hd (sort_key f xs)) \<le> f x)"
proof -
  let ?ys = "sort_key f xs"
  have ne: "?ys \<noteq> []" using assms by (metis length_0_conv length_sort)
  then obtain y ys where ys: "?ys = y # ys" by (cases ?ys) auto
  have "sorted (map f ?ys)" by simp
  then have "\<forall>x\<in>set ?ys. f y \<le> f x" unfolding ys by auto
  moreover have "set ?ys = set xs" by simp
  moreover have "y \<in> set ?ys" unfolding ys by simp
  ultimately show ?thesis unfolding ys by auto
qed

lemma resolveAnswerPoll_fallback:
  assumes "findByPollId pid db = None"
  shows "resolveAnswerPoll env pid db =
           (case scanActivePolls env pid db of
              [] \<Rightarrow> None
            | [x] \<Rightarrow> Some (fst x)
            | x # y # zs \<Rightarrow> Some (fst (hd (sort_key (\<lambda>(i, d). - updatedAt d) (x # y # zs)))))"
  using assms by (simp add: resolveAnswerPoll_def Let_def split: list.splits)

lemma resolveAnswerPoll_Some:
  assumes "findByPollId pid db = None" "resolveAnswerPoll env pid db = Some i"
  shows "(i, db ! i) \<in> set (scanActivePolls env pid db) \<and>
         (\<forall>(j, d)\<in>set (scanActivePolls env pid db). updatedAt d \<le> updatedAt (db ! i))"
proof -
  let ?all = "scanActivePolls env pid db"
  let ?k = "\<lambda>(i, d). - updatedAt d"
  have ne: "?all \<noteq> []" using assms by (auto simp: resolveAnswerPoll_fallback)
  have "Some i = Some (fst (hd (sort_key ?k ?all)))"
  proof (cases ?all)
    case Nil with ne show ?thesis by simp
  next
    case (Cons x xs)
    then show ?thesis using assms by (cases xs) (simp_all add: resolveAnswerPoll_fallback)
  qed
  then have i: "i = fst (hd (sort_key ?k ?all))" by simp
  obtain j d where jd: "hd (sort_key ?k ?all) = (j, d)" by (cases "hd (sort_key ?k ?all)")
  from hd_sort_key_least[OF ne, of ?k] jd
  have mem: "(j, d) \<in> set ?all" and least: "\<forall>x\<in>set ?all. ?k (j, d) \<le> ?k x" by auto
  from scanActivePolls_mem[OF mem] have "d = db ! j" by simp
  with i jd mem least show ?thesis by (auto simp: case_prod_beta)
qed

lemma findMany_empty: "findMany q db = [] \<longleftrightarrow> (\<forall>d\<in>set db. \<not> q d)"
proof
  assume e: "findMany q db = []"
  show "\<forall>d\<in>set db. \<not> q d"
  proof
    fix d assume "d \<in> set db"
    then obtain i where "i < length db" "d = db ! i" by (auto simp: in_set_conv_nth)
    then have "q d \<Longrightarrow> (i, d) \<in> set (findMany q db)" by (simp add: findMany_mem)
    with e show "\<not> q d" by auto
  qed
next
  assume a: "\<forall>d\<in>set db. \<not> q d"
  show "findMany q db = []"
  proof (rule ccontr)
    assume "findMany q db \<noteq> []"
    then obtain i d where "(i, d) \<in> set (findMany q db)" by (cases "findMany q db") auto
    then have "i < length db" "d = db ! i" "q d" by (auto simp: findMany_mem)
    with a show False by auto
  qed
qed

lemma containsDigits_iff: "containsDigits pat s \<longleftrightarrow> (\<exists>us vs. s = us @ pat @ vs)"
proof
  assume "containsDigits pat s"
  then obtain k where k: "take (length pat) (drop k s) = pat"
    by (auto simp: containsDigits_def list_ex_iff)
  have "s = take k s @ take (length pat) (drop k s) @ drop (length pat) (drop k s)"
    by (simp only: append_take_drop_id)
  then have "s = take k s @ pat @ drop (length pat) (drop k s)" by (simp only: k)
  then show "\<exists>us vs. s = us @ pat @ vs" by blast
next
  assume "\<exists>us vs. s = us @ pat @ vs"
  then obtain us vs where s: "s = us @ pat @ vs" by blast
  have a: "length us \<in> set [0..<Suc (length s)]" by (simp add: s)
  have b: "take (length pat) (drop (length us) s) = pat" by (simp add: s)
  show "containsDigits pat s"
    unfolding containsDigits_def list_ex_iff using a b by (rule bexI[rotated])
qed

lemma prefixCandidate_iff:
  "prefixCandidate pid d \<longleftrightarrow>
     \<not> isClosed d \<and>
     (\<exists>s us vs. (pollId d = Some s \<or> originalPollId d = Some s) \<and> s = us @ take 10 pid @ vs)"
  by (auto simp: prefixCandidate_def prefixQuery_def fieldMatches_def containsDigits_iff
      split: option.splits)

lemma prefixSearch_digits:
  "list_all isDigit (take 10 pid) \<Longrightarrow>
   prefixSearch env (take 10 pid) db = Some (findMany (prefixCandidate pid) db)"
proof -
  assume "list_all isDigit (take 10 pid)"
  moreover have "prefixCandidate pid = prefixQuery (containsDigits (take 10 pid))"
    by (rule ext) (simp add: prefixCandidate_def)
  ultimately show ?thesis by (simp add: prefixSearch_def regexQuery_def)
qed

lemma resolveAnswerPoll_nonempty:
  assumes "findByPollId pid db = None" "scanActivePolls env pid db \<noteq> []"
  shows "\<exists>i. resolveAnswerPoll env pid db = Some i"
  using assms by (simp add: resolveAnswerPoll_fallback split: list.splits)

lemma scan_candidates:
  assumes dg: "list_all isDigit (take 10 pid)"
  shows "scanActivePolls env pid db
           = (if findMany (prefixCandidate pid) db = [] then findMany openQuery db
              else findMany (prefixCandidate pid) db)"
  by (simp add: scanActivePolls_def prefixSearch_digits[OF dg])

lemma lookup_among_candidates:
  assumes nf: "findByPollId pid db = None" and dg: "list_all isDigit (take 10 pid)"
    and ex: "j < length db" "prefixCandidate pid (db ! j)"
  shows "\<exists>i. resolveAnswerPoll env pid db = Some i \<and> i < length db \<and>
             prefixCandidate pid (db ! i) \<and>
             (\<forall>k<length db. prefixCandidate pid (db ! k) \<longrightarrow>
                updatedAt (db ! k) \<le> updatedAt (db ! i))"
proof -
  have mem: "(j, db ! j) \<in> set (findMany (prefixCandidate pid) db)"
    using ex by (simp add: findMany_mem)
  then have ne: "findMany (prefixCandidate pid) db \<noteq> []" by auto
  then have scan: "scanActivePolls env pid db = findMany (prefixCandidate pid) db"
    by (simp add: scan_candidates[OF dg])
  with ne obtain i where r: "resolveAnswerPoll env pid db = Some i"
    using resolveAnswerPoll_nonempty[OF nf, of env] by auto
  note rs = resolveAnswerPoll_Some[OF nf r]
  from rs have m: "(i, db ! i) \<in> set (findMany (prefixCandidate pid) db)"
    unfolding scan by simp
  then have i: "i < length db" "prefixCandidate pid (db ! i)" by (auto simp: findMany_mem)
  have "updatedAt (db ! k) \<le> updatedAt (db ! i)"
    if "k < length db" "prefixCandidate pid (db ! k)" for k
  proof -
    from that have "(k, db ! k) \<in> set (scanActivePolls env pid db)"
      unfolding scan by (simp add: findMany_mem)
    with rs show ?thesis by auto
  qed
  with r i show ?thesis by blast
qed

lemma lookup_without_candidates:
  assumes nf: "findByPollId pid db = None" and dg: "list_all isDigit (take 10 pid)"
    and none: "\<forall>j<length db. \<not> prefixCandidate pid (db ! j)"
    and r: "resolveAnswerPoll env pid db = Some i"
  shows "i < length db \<and> \<not> isClosed (db ! i) \<and>
         (\<forall>k<length db. \<not> isClosed (db ! k) \<longrightarrow> updatedAt (db ! k) \<le> updatedAt (db ! i))"
proof -
  have "findMany (prefixCandidate pid) db = []"
    using none by (auto simp: findMany_empty in_set_conv_nth)
  then have scan: "scanActivePolls env pid db = findMany openQuery db"
    by (simp add: scan_candidates[OF dg])
  note rs = resolveAnswerPoll_Some[OF nf r]
  from rs have m: "(i, db ! i) \<in> set (scanActivePolls env pid db)" by simp
  have a: "i < length db" using scanActivePolls_mem[OF m] by blast
  have b: "\<not> isClosed (db ! i)" using scanActivePolls_mem[OF m] by blast
  have "updatedAt (db ! k) \<le> updatedAt (db ! i)" if "k < length db" "\<not> isClosed (db ! k)" for k
  proof -
    from that have "(k, db ! k) \<in> set (scanActivePolls env pid db)"
      unfolding scan by (auto simp: findMany_mem openQuery_def)
    with rs show ?thesis by auto
  qed
  with a b show ?thesis by blast
qed

text \<open>
  Claim C7, as the code has it. For an inbound poll id that equals no stored \<open>pollId\<close>
  and no stored \<open>originalPollId\<close>: a snapshot push is a no-op; the lookup of a vote event
  returns NotFound exactly when the collection holds no open poll, and the event is then
  a no-op that changes no document. For an id whose first ten characters are digits, the
  candidates of the search are the open polls whose \<open>pollId\<close> or \<open>originalPollId\<close> contains
  those ten characters anywhere, not only at its start. With exactly one candidate the
  lookup resolves to it; with one or more it resolves to a candidate that no other
  candidate exceeds in \<open>updatedAt\<close>; with none it falls back to all open polls and
  resolves to an open poll that no other open poll exceeds in \<open>updatedAt\<close>.
\<close>

theorem poll_answer_lookup_fallback:
  assumes "findByPollId pid db = None"
  shows "(\<forall>d. prefixCandidate pid d \<longleftrightarrow>
              \<not> isClosed d \<and>
              (\<exists>s us vs. (pollId d = Some s \<or> originalPollId d = Some s) \<and>
                          s = us @ take 10 pid @ vs)) \<and>
         (resolveAnswerPoll env pid db = None \<longleftrightarrow> (\<forall>d\<in>set db. isClosed d)) \<and>
         (resolveAnswerPoll env pid db = None \<longrightarrow>
            on_poll_answer env now (Some (a\<lparr>poll_id := Some pid\<rparr>)) db = db) \<and>
         on_poll now (Some (tp\<lparr>tg_id := Some pid\<rparr>)) db = db \<and>
         (list_all isDigit (take 10 pid) \<longrightarrow>
            (\<forall>i. i < length db \<and> prefixCandidate pid (db ! i) \<and>
                 (\<forall>j<length db. prefixCandidate pid (db ! j) \<longrightarrow> j = i) \<longrightarrow>
               resolveAnswerPoll env pid db = Some i) \<and>
            (\<forall>i. (\<exists>j<length db. prefixCandidate pid (db ! j)) \<and>
                 resolveAnswerPoll env pid db = Some i \<longrightarrow>
               i < length db \<and> prefixCandidate pid (db ! i) \<and>
               (\<forall>k<length db. prefixCandidate pid (db ! k) \<longrightarrow>
                  updatedAt (db ! k) \<le> updatedAt (db ! i))) \<and>
            (\<forall>i. (\<forall>j<length db. \<not> prefixCandidate pid (db ! j)) \<and>
                 resolveAnswerPoll env pid db = Some i \<longrightarrow>
               i < length db \<and> \<not> isClosed (db ! i) \<and>
               (\<forall>k<length db. \<not> isClosed (db ! k) \<longrightarrow>
                  updatedAt (db ! k) \<le> updatedAt (db ! i))))"
proof -
  have c0: "\<forall>d. prefixCandidate pid d \<longleftrightarrow>
              \<not> isClosed d \<and>
              (\<exists>s us vs. (pollId d = Some s \<or> originalPollId d = Some s) \<and>
                          s = us @ take 10 pid @ vs)"
    using prefixCandidate_iff by blast
  have "resolveAnswerPoll env pid db = None \<longleftrightarrow> scanActivePolls env pid db = []"
    by (simp add: resolveAnswerPoll_fallback[OF assms] split: list.splits)
  also have "\<dots> \<longleftrightarrow> findMany openQuery db = []" by (rule scanActivePolls_empty_iff)
  also have "\<dots> \<longleftrightarrow> (\<forall>d\<in>set db. isClosed d)" by (simp add: findMany_empty openQuery_def)
  finally have c1: "resolveAnswerPoll env pid db = None \<longleftrightarrow> (\<forall>d\<in>set db. isClosed d)" .
  have c2: "resolveAnswerPoll env pid db = None \<longrightarrow>
              on_poll_answer env now (Some (a\<lparr>poll_id := Some pid\<rparr>)) db = db"
    by (simp add: on_poll_answer_def split: option.splits)
  have c3: "on_poll now (Some (tp\<lparr>tg_id := Some pid\<rparr>)) db = db"
    using assms by (simp add: on_poll_def)
  have c4: "list_all isDigit (take 10 pid) \<longrightarrow>
            (\<forall>i. i < length db \<and> prefixCandidate pid (db ! i) \<and>
                 (\<forall>j<length db. prefixCandidate pid (db ! j) \<longrightarrow> j = i) \<longrightarrow>
               resolveAnswerPoll env pid db = Some i) \<and>
            (\<forall>i. (\<exists>j<length db. prefixCandidate pid (db ! j)) \<and>
                 resolveAnswerPoll env pid db = Some i \<longrightarrow>
               i < length db \<and> prefixCandidate pid (db ! i) \<and>
               (\<forall>k<length db. prefixCandidate pid (db ! k) \<longrightarrow>
                  updatedAt (db ! k) \<le> updatedAt (db ! i))) \<and>
            (\<forall>i. (\<forall>j<length db. \<not> prefixCandidate pid (db ! j)) \<and>
                 resolveAnswerPoll env pid db = Some i \<longrightarrow>
               i < length db \<and> \<not> isClosed (db ! i) \<and>
               (\<forall>k<length db. \<not> isClosed (db ! k) \<longrightarrow>
                  updatedAt (db ! k) \<le> updatedAt (db ! i)))"
  proof
    assume dg: "list_all isDigit (take 10 pid)"
    have p1: "\<forall>i. i < length db \<and> prefixCandidate pid (db ! i) \<and>
                 (\<forall>j<length db. prefixCandidate pid (db ! j) \<longrightarrow> j = i) \<longrightarrow>
               resolveAnswerPoll env pid db = Some i"
    proof (intro allI impI)
      fix i
      assume h: "i < length db \<and> prefixCandidate pid (db ! i) \<and>
                 (\<forall>j<length db. prefixCandidate pid (db ! j) \<longrightarrow> j = i)"
      from h have i: "i < length db" "prefixCandidate pid (db ! i)" by blast+
      from lookup_among_candidates[OF assms dg i, of env]
      obtain r where r: "resolveAnswerPoll env pid db = Some r" "r < length db"
          "prefixCandidate pid (db ! r)" by blast
      with h have "r = i" by blast
      with r show "resolveAnswerPoll env pid db = Some i" by simp
    qed
    have p2: "\<forall>i. (\<exists>j<length db. prefixCandidate pid (db ! j)) \<and>
                 resolveAnswerPoll env pid db = Some i \<longrightarrow>
               i < length db \<and> prefixCandidate pid (db ! i) \<and>
               (\<forall>k<length db. prefixCandidate pid (db ! k) \<longrightarrow>
                  updatedAt (db ! k) \<le> updatedAt (db ! i))"
    proof (intro allI impI)
      fix i
      assume h: "(\<exists>j<length db. prefixCandidate pid (db ! j)) \<and>
                 resolveAnswerPoll env pid db = Some i"
      then obtain j where j: "j < length db" "prefixCandidate pid (db ! j)" by blast
      from lookup_among_candidates[OF assms dg j, of env] h
      show "i < length db \<and> prefixCandidate pid (db ! i) \<and>
            (\<forall>k<length db. prefixCandidate pid (db ! k) \<longrightarrow>
               updatedAt (db ! k) \<le> updatedAt (db ! i))"
        by auto
    qed
    have p3: "\<forall>i. (\<forall>j<length db. \<not> prefixCandidate pid (db ! j)) \<and>
                 resolveAnswerPoll env pid db = Some i \<longrightarrow>
               i < length db \<and> \<not> isClosed (db ! i) \<and>
               (\<forall>k<length db. \<not> isClosed (db ! k) \<longrightarrow>
                  updatedAt (db ! k) \<le> updatedAt (db ! i))"
    proof (intro allI impI)
      fix i
      assume h: "(\<forall>j<length db. \<not> prefixCandidate pid (db ! j)) \<and>
                 resolveAnswerPoll env pid db = Some i"
      show "i < length db \<and> \<not> isClosed (db ! i) \<and>
            (\<forall>k<length db. \<not> isClosed (db ! k) \<longrightarrow> updatedAt (db ! k) \<le> updatedAt (db ! i))"
        by (rule lookup_without_candidates[OF assms dg conjunct1[OF h] conjunct2[OF h]])
    qed
    from p1 p2 p3
    show "(\<forall>i. i < length db \<and> prefixCandidate pid (db ! i) \<and>
                 (\<forall>j<length db. prefixCandidate pid (db ! j) \<longrightarrow> j = i) \<longrightarrow>
               resolveAnswerPoll env pid db = Some i) \<and>
            (\<forall>i. (\<exists>j<length db. prefixCandidate pid (db ! j)) \<and>
                 resolveAnswerPoll env pid db = Some i \<longrightarrow>
               i < length db \<and> prefixCandidate pid (db ! i) \<and>
               (\<forall>k<length db. prefixCandidate pid (db ! k) \<longrightarrow>
                  updatedAt (db ! k) \<le> updatedAt (db ! i))) \<and>
            (\<forall>i. (\<forall>j<length db. \<not> prefixCandidate pid (db ! j)) \<and>
                 resolveAnswerPoll env pid db = Some i \<longrightarrow>
               i < length db \<and> \<not> isClosed (db ! i) \<and>
               (\<forall>k<length db. \<not> isClosed (db ! k) \<longrightarrow>
                  updatedAt (db ! k) \<le> updatedAt (db ! i)))"
      by (intro conjI)
  qed
  from c0 c1 c2 c3 c4 show ?thesis by (intro conjI)
qed

lemmas lookup_defs = findByPollId_def findOne_def findMany_def enumerate_eq_zip prefixSearch_def
  regexQuery_def isDigit_def digitsEnv_def containsDigits_def prefixQuery_def openQuery_def fieldMatches_def
  scanActivePolls_def resolveAnswerPoll_def

lemmas example_defs = trackedPoll_def closedPoll_def rotatedPoll_def freshPoll_def
  untrackedPoll_def threePlaceholders_def emptyOption_def optionB_def answer_def voter555_def

text \<open>
  The example lookups, evaluated. The id 1234567890999999999 has two candidates among the
  polls with the ids 5301234567890123456 and 1234567890555555555, since the first
  contains 1234567890 from its fourth character on; and next to a more recently updated
  poll with the id 7700000000000000001 the poll 5301234567890123456 is its only
  candidate.
\<close>

lemmas candidate_defs = prefixCandidate_def prefixQuery_def fieldMatches_def containsDigits_def

lemma example_candidates:
  "prefixCandidate ''5301234567000000000'' closedPoll = False \<and>
   prefixCandidate ''5301234567000000000'' rotatedPoll \<and>
   prefixCandidate ''9999999999999999999'' trackedPoll = False \<and>
   prefixCandidate ''1234567890999999999'' recentPoll \<and>
   prefixCandidate ''1234567890999999999'' startsPoll \<and>
   prefixCandidate ''1234567890999999999'' freshPoll \<and>
   prefixCandidate ''1234567890999999999'' laterPoll = False"
  by (simp add: candidate_defs example_defs recentPoll_def startsPoll_def laterPoll_def)

lemma example_lookups:
  "resolveAnswerPoll env ''5301234567000000000'' [closedPoll, rotatedPoll] = Some 1 \<and>
   resolveAnswerPoll env ''9999999999999999999'' [closedPoll] = None \<and>
   resolveAnswerPoll env ''9999999999999999999'' [trackedPoll] = Some 0 \<and>
   resolveAnswerPoll env ''1234567890999999999'' [recentPoll, startsPoll] = Some 0 \<and>
   resolveAnswerPoll env ''1234567890999999999'' [freshPoll, laterPoll] = Some 0"
  by (simp add: lookup_defs scanActivePolls_def resolveAnswerPoll_def example_defs recentPoll_def startsPoll_def laterPoll_def)

theorem poll_answer_lookup_fallback_witness:
  "findByPollId ''5301234567000000000'' [closedPoll, rotatedPoll] = None \<and>
   list_all isDigit (take 10 ''5301234567000000000'') \<and>
   prefixCandidate ''5301234567000000000'' closedPoll = False \<and>
   prefixCandidate ''5301234567000000000'' rotatedPoll \<and>
   resolveAnswerPoll digitsEnv ''5301234567000000000'' [closedPoll, rotatedPoll] = Some 1 \<and>
   findByPollId ''1234567890999999999'' [recentPoll, startsPoll] = None \<and>
   prefixCandidate ''1234567890999999999'' recentPoll \<and>
   prefixCandidate ''1234567890999999999'' startsPoll \<and>
   updatedAt recentPoll = 50 \<and> updatedAt startsPoll = 0 \<and>
   resolveAnswerPoll digitsEnv ''1234567890999999999'' [recentPoll, startsPoll] = Some 0 \<and>
   findByPollId ''9999999999999999999'' [closedPoll] = None \<and>
   resolveAnswerPoll digitsEnv ''9999999999999999999'' [closedPoll] = None \<and>
   on_poll_answer digitsEnv 100 (Some (answer ''9999999999999999999'' [1])) [closedPoll]
     = [closedPoll] \<and>
   on_poll 100 (Some (snapshot 1 [Some 1, Some 0]\<lparr>tg_id := Some ''9999999999999999999''\<rparr>))
     [closedPoll] = [closedPoll]"
proof -
  have a: "findByPollId ''5301234567000000000'' [closedPoll, rotatedPoll] = None"
    by (simp add: lookup_defs example_defs)
  have dg: "list_all isDigit (take 10 ''5301234567000000000'')" by (simp add: isDigit_def)
  have c: "prefixCandidate ''5301234567000000000'' closedPoll = False"
    "prefixCandidate ''5301234567000000000'' rotatedPoll"
    "prefixCandidate ''1234567890999999999'' recentPoll"
    "prefixCandidate ''1234567890999999999'' startsPoll"
    using example_candidates by simp_all
  have one: "1 < length [closedPoll, rotatedPoll] \<and>
             prefixCandidate ''5301234567000000000'' ([closedPoll, rotatedPoll] ! 1) \<and>
             (\<forall>j<length [closedPoll, rotatedPoll].
                prefixCandidate ''5301234567000000000'' ([closedPoll, rotatedPoll] ! j) \<longrightarrow> j = 1)"
    using c by (auto simp: less_Suc_eq)
  from poll_answer_lookup_fallback[OF a, of digitsEnv] dg one
  have r1: "resolveAnswerPoll digitsEnv ''5301234567000000000'' [closedPoll, rotatedPoll] = Some 1"
    by blast
  have b: "findByPollId ''1234567890999999999'' [recentPoll, startsPoll] = None"
    by (simp add: lookup_defs example_defs recentPoll_def startsPoll_def)
  have u: "updatedAt recentPoll = 50" "updatedAt startsPoll = 0"
    by (simp_all add: example_defs recentPoll_def startsPoll_def)
  have r2: "resolveAnswerPoll digitsEnv ''1234567890999999999'' [recentPoll, startsPoll] = Some 0"
    using example_lookups by blast
  have n: "findByPollId ''9999999999999999999'' [closedPoll] = None"
    by (simp add: lookup_defs example_defs)
  have cl: "\<forall>d\<in>set [closedPoll]. isClosed d" by (simp add: example_defs)
  have e: "(answer ''9999999999999999999'' [1])\<lparr>poll_id := Some ''9999999999999999999''\<rparr>
             = answer ''9999999999999999999'' [1]"
    by (simp add: answer_def)
  from poll_answer_lookup_fallback[OF n, of digitsEnv 100 "answer ''9999999999999999999'' [1]"
      "snapshot 1 [Some 1, Some 0]"] cl e
  have r3: "resolveAnswerPoll digitsEnv ''9999999999999999999'' [closedPoll] = None"
    and r4: "on_poll_answer digitsEnv 100 (Some (answer ''9999999999999999999'' [1])) [closedPoll]
               = [closedPoll]"
    and r5: "on_poll 100 (Some (snapshot 1 [Some 1, Some 0]\<lparr>tg_id := Some ''9999999999999999999''\<rparr>))
               [closedPoll] = [closedPoll]"
    by simp_all
  from a dg c r1 b u r2 n r3 r4 r5 show ?thesis by (intro conjI)
qed

text \<open>
  Claim C7 fails as stated. The inbound id 9999999999999999999 equals no stored id and
  its prefix occurs in no stored id, yet the lookup resolves to the only open poll and the
  vote of user 555 is recorded on it. And the prefix of the inbound id
  1234567890999999999 starts the id of exactly one open poll, 1234567890555555555, yet
  the lookup resolves to the other, more recently updated poll 5301234567890123456.
\<close>

theorem poll_answer_lookup_counterexample:
  "findByPollId ''9999999999999999999'' [trackedPoll] = None \<and>
   pollId trackedPoll = Some ''5301234567890123456'' \<and> originalPollId trackedPoll = None \<and>
   prefixCandidate ''9999999999999999999'' trackedPoll = False \<and>
   resolveAnswerPoll digitsEnv ''9999999999999999999'' [trackedPoll] = Some 0 \<and>
   on_poll_answer digitsEnv 100 (Some (answer ''9999999999999999999'' [1])) [trackedPoll]
     = [trackedPoll\<lparr>options := [threePlaceholders,
                                   optionB\<lparr>voterIds := [555], existingVotes := 1\<rparr>],
                     total_voter_count := Some 4, updatedAt := 100\<rparr>] \<and>
   findByPollId ''1234567890999999999'' [recentPoll, startsPoll] = None \<and>
   pollId recentPoll = Some ''5301234567890123456'' \<and> originalPollId recentPoll = None \<and>
   pollId startsPoll = Some ''1234567890555555555'' \<and> originalPollId startsPoll = None \<and>
   isClosed recentPoll = False \<and> isClosed startsPoll = False \<and>
   resolveAnswerPoll digitsEnv ''1234567890999999999'' [recentPoll, startsPoll] = Some 0"
proof (intro conjI)
  show "findByPollId ''9999999999999999999'' [trackedPoll] = None"
    by (simp add: lookup_defs example_defs)
  show "pollId trackedPoll = Some ''5301234567890123456''" "originalPollId trackedPoll = None"
    by (simp_all add: example_defs)
  show "prefixCandidate ''9999999999999999999'' trackedPoll = False"
    using example_candidates by blast
  show r: "resolveAnswerPoll digitsEnv ''9999999999999999999'' [trackedPoll] = Some 0"
    using example_lookups by blast
  show "on_poll_answer digitsEnv 100 (Some (answer ''9999999999999999999'' [1])) [trackedPoll]
     = [trackedPoll\<lparr>options := [threePlaceholders,
                                   optionB\<lparr>voterIds := [555], existingVotes := 1\<rparr>],
                     total_voter_count := Some 4, updatedAt := 100\<rparr>]"
  proof -
    have o: "isClosed trackedPoll = False" by (simp add: trackedPoll_def)
    have "on_poll_answer digitsEnv 100 (Some (answer ''9999999999999999999'' [1])) [trackedPoll]
            = [pollAnswerUpdate 100 voter555 [1] trackedPoll]"
      by (simp add: on_poll_answer_def r answer_def o)
    also have "pollAnswerUpdate 100 voter555 [1] trackedPoll
            = trackedPoll\<lparr>options := [threePlaceholders,
                                          optionB\<lparr>voterIds := [555], existingVotes := 1\<rparr>],
                            total_voter_count := Some 4, updatedAt := 100\<rparr>"
      by (simp add: voter555_def pollAnswerUpdate_def recordVote_def
          removeUserVotes_def updateMentions_def findIndex_def newTotalVoterCount_def
          uniqueVoters_def placeholderVotes_def trackedPoll_def threePlaceholders_def optionB_def)
    finally show ?thesis .
  qed
  show "findByPollId ''1234567890999999999'' [recentPoll, startsPoll] = None"
    by (simp add: lookup_defs example_defs recentPoll_def startsPoll_def)
  show "pollId recentPoll = Some ''5301234567890123456''" "originalPollId recentPoll = None"
    "pollId startsPoll = Some ''1234567890555555555''" "originalPollId startsPoll = None"
    "isClosed recentPoll = False" "isClosed startsPoll = False"
    by (simp_all add: example_defs recentPoll_def startsPoll_def)
  show "resolveAnswerPoll digitsEnv ''1234567890999999999'' [recentPoll, startsPoll] = Some 0"
    using example_lookups by blast
qed

section \<open>Named votes and existingVotes\<close>

lemma length_recordVote: "length (options (recordVote uid p idx)) = length (options p)"
  by (simp add: recordVote_def Let_def)

lemma recordVote_frame:
  "isMultipleChoice (recordVote uid p idx) = isMultipleChoice p \<and>
   mentions (recordVote uid p idx) = mentions p"
  by (simp add: recordVote_def Let_def)

lemma recordVote_invalid:
  "\<not> (0 \<le> idx \<and> idx < int (length (options p))) \<Longrightarrow> recordVote uid p idx = p"
  unfolding recordVote_def by (rule if_not_P)

lemma recordVote_single_valid:
  assumes "\<not> isMultipleChoice p" "0 \<le> idx" "idx < int (length (options p))"
    and "j < length (options p)"
  shows "voterIds (options (recordVote uid p idx) ! j)
           = filter (\<lambda>id. id \<noteq> uid) (voterIds (options p ! j)) @ (if j = nat idx then [uid] else [])"
    and "existingVotes (options (recordVote uid p idx) ! j)
           = (if j = nat idx
              then max (existingVotes (options p ! j))
                       (int (length (filter (\<lambda>id. id > 0)
                          (voterIds (options (recordVote uid p idx) ! j)))))
              else existingVotes (options p ! j))"
proof -
  let ?opts1 = "map (removeUserVotes uid) (options p)"
  have k: "nat idx < length (options p)" using assms by simp
  have notin: "uid \<notin> set (voterIds (?opts1 ! nat idx))" using k by (simp add: removeUserVotes_def)
  have eq: "options (recordVote uid p idx)
        = ?opts1[nat idx := (?opts1 ! nat idx)\<lparr>voterIds := voterIds (?opts1 ! nat idx) @ [uid],
             existingVotes := (if existingVotes (?opts1 ! nat idx)
                    < int (length (filter (\<lambda>id. id > 0) (voterIds (?opts1 ! nat idx) @ [uid])))
                  then int (length (filter (\<lambda>id. id > 0) (voterIds (?opts1 ! nat idx) @ [uid])))
                  else existingVotes (?opts1 ! nat idx))\<rparr>]"
    using assms(1-3) notin unfolding recordVote_def Let_def by simp
  show "voterIds (options (recordVote uid p idx) ! j)
           = filter (\<lambda>id. id \<noteq> uid) (voterIds (options p ! j)) @ (if j = nat idx then [uid] else [])"
    unfolding eq using assms(4) k by (simp add: nth_list_update removeUserVotes_def)
  show "existingVotes (options (recordVote uid p idx) ! j)
           = (if j = nat idx
              then max (existingVotes (options p ! j))
                       (int (length (filter (\<lambda>id. id > 0)
                          (voterIds (options (recordVote uid p idx) ! j)))))
              else existingVotes (options p ! j))"
    unfolding eq using assms(4) k by (simp add: nth_list_update removeUserVotes_def max_def)
qed

lemma recordVote_multi_valid:
  assumes "isMultipleChoice p" "0 \<le> idx" "idx < int (length (options p))"
    and "j < length (options p)"
  shows "voterIds (options (recordVote uid p idx) ! j)
           = voterIds (options p ! j) @
             (if j = nat idx \<and> uid \<notin> set (voterIds (options p ! j)) then [uid] else [])"
    and "existingVotes (options (recordVote uid p idx) ! j)
           = (if j = nat idx \<and> uid \<notin> set (voterIds (options p ! j))
              then max (existingVotes (options p ! j))
                       (int (length (filter (\<lambda>id. id > 0)
                          (voterIds (options (recordVote uid p idx) ! j)))))
              else existingVotes (options p ! j))"
proof -
  have k: "nat idx < length (options p)" using assms by simp
  show "voterIds (options (recordVote uid p idx) ! j)
           = voterIds (options p ! j) @
             (if j = nat idx \<and> uid \<notin> set (voterIds (options p ! j)) then [uid] else [])"
    using assms k by (simp add: recordVote_def Let_def nth_list_update)
  show "existingVotes (options (recordVote uid p idx) ! j)
           = (if j = nat idx \<and> uid \<notin> set (voterIds (options p ! j))
              then max (existingVotes (options p ! j))
                       (int (length (filter (\<lambda>id. id > 0)
                          (voterIds (options (recordVote uid p idx) ! j)))))
              else existingVotes (options p ! j))"
    using assms k by (auto simp: recordVote_def Let_def nth_list_update max_def)
qed

lemma recordVote_existingVotes_mono:
  assumes "j < length (options p)"
  shows "existingVotes (options p ! j) \<le> existingVotes (options (recordVote uid p idx) ! j)"
proof (cases "0 \<le> idx \<and> idx < int (length (options p))")
  case False
  then show ?thesis by (simp add: recordVote_invalid)
next
  case True
  then show ?thesis
    using recordVote_single_valid(2)[of p idx j uid] recordVote_multi_valid(2)[of p idx j uid] assms
    by (cases "isMultipleChoice p") (simp_all add: max_def)
qed

lemma length_foldl_recordVote:
  "length (options (foldl (recordVote uid) p ids)) = length (options p)"
  by (induction ids arbitrary: p) (simp_all add: length_recordVote)

lemma foldl_recordVote_frame:
  "isMultipleChoice (foldl (recordVote uid) p ids) = isMultipleChoice p \<and>
   mentions (foldl (recordVote uid) p ids) = mentions p"
  by (induction ids arbitrary: p) (simp_all add: recordVote_frame)

lemma foldl_recordVote_existingVotes_mono:
  "j < length (options p) \<Longrightarrow>
   existingVotes (options p ! j) \<le> existingVotes (options (foldl (recordVote uid) p ids) ! j)"
proof (induction ids arbitrary: p)
  case Nil
  then show ?case by simp
next
  case (Cons x xs)
  have "existingVotes (options p ! j) \<le> existingVotes (options (recordVote uid p x) ! j)"
    using Cons.prems by (rule recordVote_existingVotes_mono)
  also have "\<dots> \<le> existingVotes (options (foldl (recordVote uid) (recordVote uid p x) xs) ! j)"
    using Cons.prems by (intro Cons.IH) (simp add: length_recordVote)
  finally show ?case by simp
qed

lemma options_pollAnswerUpdate:
  "options (pollAnswerUpdate now u ids p)
     = (if ids \<noteq> [] then options (foldl (recordVote (user_id u)) p ids)
        else map (retractVote (user_id u)) (options p))"
  by (simp add: pollAnswerUpdate_def Let_def)

lemma mentions_pollAnswerUpdate:
  "mentions (pollAnswerUpdate now u ids p) = updateMentions u ids (mentions p)"
  by (simp add: pollAnswerUpdate_def Let_def foldl_recordVote_frame)

lemma retractVote_existingVotes:
  "existingVotes (retractVote uid opt)
     = (if uid \<in> set (voterIds opt)
        then min (existingVotes opt)
                 (int (length (filter (\<lambda>id. id > 0) (voterIds (retractVote uid opt)))))
        else existingVotes opt)"
  by (simp add: retractVote_def Let_def min_def)

text \<open>The example events, evaluated.\<close>

lemmas handler_defs = pollAnswerUpdate_def recordVote_def retractVote_def removeUserVotes_def
  updateMentions_def updateMention_def mentionMatches_def findIndex_def newTotalVoterCount_def
  uniqueVoters_def placeholderVotes_def

lemma votedPoll_vote1:
  "pollAnswerUpdate 100 voter555 [1] votedPoll
     = votedPoll\<lparr>options := [\<lparr>option_text = ''A'', voterIds = [], existingVotes = 1\<rparr>,
                              optionB\<lparr>voterIds := [555], existingVotes := 1\<rparr>],
                 mentions := [\<lparr>userId = Some 555, username = Some ''ann'',
                               firstName = Some ''Ann'', lastName = None, voted = True\<rparr>],
                 updatedAt := 100\<rparr>"
  by (simp add: handler_defs example_defs votedPoll_def enumerate_eq_zip)

lemma votedPoll_retract:
  "pollAnswerUpdate 100 voter555 [] votedPoll
     = votedPoll\<lparr>options := [\<lparr>option_text = ''A'', voterIds = [], existingVotes = 0\<rparr>, optionB],
                 mentions := [\<lparr>userId = Some 555, username = Some ''ann'',
                               firstName = Some ''Ann'', lastName = None, voted = False\<rparr>],
                 total_voter_count := Some 0, updatedAt := 100\<rparr>"
  by (simp add: handler_defs example_defs votedPoll_def enumerate_eq_zip)

lemma votedPoll_vote5:
  "pollAnswerUpdate 100 voter555 [5] votedPoll
     = votedPoll\<lparr>mentions := [\<lparr>userId = Some 555, username = Some ''ann'',
                               firstName = Some ''Ann'', lastName = None, voted = True\<rparr>],
                 updatedAt := 100\<rparr>"
  by (simp add: handler_defs example_defs votedPoll_def enumerate_eq_zip)

lemma votedPoll_vote01:
  "pollAnswerUpdate 100 voter555 [0, 1] votedPoll
     = votedPoll\<lparr>options := [\<lparr>option_text = ''A'', voterIds = [], existingVotes = 1\<rparr>,
                              optionB\<lparr>voterIds := [555], existingVotes := 1\<rparr>],
                 mentions := [\<lparr>userId = Some 555, username = Some ''ann'',
                               firstName = Some ''Ann'', lastName = None, voted = True\<rparr>],
                 updatedAt := 100\<rparr>"
  by (simp add: handler_defs example_defs votedPoll_def enumerate_eq_zip)

lemma votedPoll_resolves:
  "resolveAnswerPoll env ''5301234567890123456'' [votedPoll] = Some 0"
  by (simp add: resolveAnswerPoll_def findByPollId_def findOne_def enumerate_eq_zip votedPoll_def
      example_defs)

lemma votedPoll_event:
  "on_poll_answer env now (Some (answer ''5301234567890123456'' ids)) [votedPoll]
     = [pollAnswerUpdate now voter555 ids votedPoll]"
proof -
  have o: "isClosed votedPoll = False" by (simp add: votedPoll_def example_defs)
  show ?thesis by (simp add: on_poll_answer_def votedPoll_resolves answer_def o)
qed

text \<open>
  Claim C4, as the code has it. A named-vote addition (a \<open>poll_answer\<close> with selected
  indices) never lowers any option's \<open>existingVotes\<close>; when a vote for one in-range index
  newly adds the user's id to that option (always on a single-choice poll, and on a
  multiple-choice poll when the id was absent), the option's \<open>existingVotes\<close> becomes the
  maximum of its old value and the count of positive ids in its \<open>voterIds\<close>. An
  empty-indices retraction lowers \<open>existingVotes\<close> of every option the user had voted for
  to the count of the remaining positive ids when that count is smaller, and leaves the
  other options' \<open>existingVotes\<close> as they are. A snapshot push and the periodic refresh
  never lower \<open>existingVotes\<close>.
\<close>

theorem named_vote_existingVotes:
  "(ids \<noteq> [] \<longrightarrow>
      (\<forall>j<length (options p).
         existingVotes (options p ! j)
           \<le> existingVotes (options (pollAnswerUpdate now u ids p) ! j))) \<and>
   (0 \<le> idx \<and> idx < int (length (options p)) \<and>
    (\<not> isMultipleChoice p \<or> user_id u \<notin> set (voterIds (options p ! nat idx))) \<longrightarrow>
      user_id u \<in> set (voterIds (options (pollAnswerUpdate now u [idx] p) ! nat idx)) \<and>
      existingVotes (options (pollAnswerUpdate now u [idx] p) ! nat idx)
        = max (existingVotes (options p ! nat idx))
              (int (length (filter (\<lambda>id. id > 0)
                 (voterIds (options (pollAnswerUpdate now u [idx] p) ! nat idx)))))) \<and>
   (\<forall>j<length (options p).
      existingVotes (options (pollAnswerUpdate now u [] p) ! j)
        = (if user_id u \<in> set (voterIds (options p ! j))
           then min (existingVotes (options p ! j))
                    (int (length (filter (\<lambda>id. id > 0)
                       (voterIds (options (pollAnswerUpdate now u [] p) ! j)))))
           else existingVotes (options p ! j))) \<and>
   existingVotes opt \<le> existingVotes (pollUpdateOption i t opt) \<and>
   existingVotes opt \<le> existingVotes (updateTrackedOption i t opt)"
proof (intro conjI impI allI)
  show "existingVotes opt \<le> existingVotes (pollUpdateOption i t opt)"
    by (cases t) (simp_all add: pollUpdateOption_def Let_def)
  show "existingVotes opt \<le> existingVotes (updateTrackedOption i t opt)"
    by (cases t) (simp_all add: updateTrackedOption_def Let_def)
next
  fix j assume "ids \<noteq> []" "j < length (options p)"
  then show "existingVotes (options p ! j)
           \<le> existingVotes (options (pollAnswerUpdate now u ids p) ! j)"
    by (simp add: options_pollAnswerUpdate foldl_recordVote_existingVotes_mono)
next
  assume h: "0 \<le> idx \<and> idx < int (length (options p)) \<and>
    (\<not> isMultipleChoice p \<or> user_id u \<notin> set (voterIds (options p ! nat idx)))"
  then have k: "nat idx < length (options p)" by linarith
  have o: "options (pollAnswerUpdate now u [idx] p) = options (recordVote (user_id u) p idx)"
    by (simp add: options_pollAnswerUpdate)
  show "user_id u \<in> set (voterIds (options (pollAnswerUpdate now u [idx] p) ! nat idx))"
    unfolding o using h k
      recordVote_single_valid(1)[of p idx "nat idx" "user_id u"]
      recordVote_multi_valid(1)[of p idx "nat idx" "user_id u"]
    by (cases "isMultipleChoice p") simp_all
  show "existingVotes (options (pollAnswerUpdate now u [idx] p) ! nat idx)
        = max (existingVotes (options p ! nat idx))
              (int (length (filter (\<lambda>id. id > 0)
                 (voterIds (options (pollAnswerUpdate now u [idx] p) ! nat idx)))))"
    unfolding o using h k
      recordVote_single_valid(2)[of p idx "nat idx" "user_id u"]
      recordVote_multi_valid(2)[of p idx "nat idx" "user_id u"]
    by (cases "isMultipleChoice p") simp_all
next
  fix j assume "j < length (options p)"
  then show "existingVotes (options (pollAnswerUpdate now u [] p) ! j)
        = (if user_id u \<in> set (voterIds (options p ! j))
           then min (existingVotes (options p ! j))
                    (int (length (filter (\<lambda>id. id > 0)
                       (voterIds (options (pollAnswerUpdate now u [] p) ! j)))))
           else existingVotes (options p ! j))"
    by (simp add: options_pollAnswerUpdate retractVote_existingVotes)
qed

theorem named_vote_existingVotes_witness:
  "[1::int] \<noteq> [] \<and> (0::int) \<le> 1 \<and> 1 < int (length (options votedPoll)) \<and>
   isMultipleChoice votedPoll = False \<and>
   555 \<in> set (voterIds (options votedPoll ! 0)) \<and>
   existingVotes (options votedPoll ! 1) = 0 \<and>
   existingVotes (options (pollAnswerUpdate 100 voter555 [1] votedPoll) ! 1) = 1 \<and>
   existingVotes (options votedPoll ! 0) = 1 \<and>
   existingVotes (options (pollAnswerUpdate 100 voter555 [1] votedPoll) ! 0) = 1 \<and>
   existingVotes (options (pollAnswerUpdate 100 voter555 [] votedPoll) ! 0) = 0"
proof -
  have a: "1 < int (length (options votedPoll))" "isMultipleChoice votedPoll = False"
    "555 \<in> set (voterIds (options votedPoll ! 0))" "existingVotes (options votedPoll ! 1) = 0"
    "existingVotes (options votedPoll ! 0) = 1" "user_id voter555 = 555"
    by (simp_all add: votedPoll_def example_defs)
  from named_vote_existingVotes[of "[1]" votedPoll 100 voter555 1] a
  show ?thesis by (simp add: votedPoll_vote1 votedPoll_retract optionB_def)
qed

text \<open>
  Claim C4 fails as stated: user 555 is the only voter of option 0, whose \<open>existingVotes\<close>
  is 1; the retraction event of user 555 lowers it to 0.
\<close>

theorem named_vote_retraction_counterexample:
  "existingVotes (options ([votedPoll] ! 0) ! 0) = 1 \<and>
   existingVotes
     (options (on_poll_answer digitsEnv 100 (Some (answer ''5301234567890123456'' []))
                 [votedPoll] ! 0) ! 0) = 0"
  by (simp add: votedPoll_event votedPoll_retract) (simp add: votedPoll_def example_defs)

section \<open>Named vote on a single-choice poll\<close>

lemma findIndex_Some:
  assumes "findIndex q xs = Some i"
  shows "i < length xs \<and> q (xs ! i)"
proof -
  from assms obtain x where x: "find (\<lambda>(i, d). q d) (enumerate 0 xs) = Some x" "fst x = i"
    by (auto simp: findIndex_def)
  then obtain m where m: "m < length xs" "(\<lambda>(i, d). q d) (enumerate 0 xs ! m)"
      "x = enumerate 0 xs ! m"
    unfolding find_Some_iff by auto
  from m(1,3) x(2) have "i = m" by (simp add: nth_enumerate_eq)
  with m show ?thesis by (auto simp: nth_enumerate_eq)
qed

lemma updateMentions_voted:
  assumes "findIndex (mentionMatches u) ms = Some m"
  shows "voted (updateMentions u ids ms ! m) = (ids \<noteq> [])"
  using assms findIndex_Some[OF assms]
  by (simp add: updateMentions_def updateMention_def Let_def)

lemma foldl_recordVote_single:
  assumes single: "\<not> isMultipleChoice p"
  shows "(filter (validIndex p) ids = [] \<longrightarrow> foldl (recordVote uid) p ids = p) \<and>
         (filter (validIndex p) ids \<noteq> [] \<longrightarrow>
            (\<forall>j<length (options p).
               voterIds (options (foldl (recordVote uid) p ids) ! j)
                 = filter (\<lambda>id. id \<noteq> uid) (voterIds (options p ! j)) @
                   (if int j = last (filter (validIndex p) ids) then [uid] else [])))"
proof (induction ids rule: rev_induct)
  case Nil
  then show ?case by simp
next
  case (snoc x xs)
  let ?q = "foldl (recordVote uid) p xs"
  have len: "length (options ?q) = length (options p)" by (rule length_foldl_recordVote)
  have sq: "\<not> isMultipleChoice ?q" using single by (simp add: foldl_recordVote_frame)
  show ?case
  proof (cases "validIndex p x")
    case False
    then have "recordVote uid ?q x = ?q"
      using len by (intro recordVote_invalid) (simp add: validIndex_def)
    then have e1: "foldl (recordVote uid) p (xs @ [x]) = ?q" by simp
    have e2: "filter (validIndex p) (xs @ [x]) = filter (validIndex p) xs" using False by simp
    show ?thesis unfolding e1 e2 by (rule snoc)
  next
    case True
    then have x: "0 \<le> x" "x < int (length (options ?q))" using len by (simp_all add: validIndex_def)
    have keep: "filter (\<lambda>id. id \<noteq> uid) (voterIds (options ?q ! j))
                  = filter (\<lambda>id. id \<noteq> uid) (voterIds (options p ! j))"
      if "j < length (options p)" for j
    proof (cases "filter (validIndex p) xs = []")
      case True
      with snoc show ?thesis by simp
    next
      case False
      with snoc that show ?thesis by simp
    qed
    have "voterIds (options (foldl (recordVote uid) p (xs @ [x])) ! j)
            = filter (\<lambda>id. id \<noteq> uid) (voterIds (options p ! j)) @
              (if int j = last (filter (validIndex p) (xs @ [x])) then [uid] else [])"
      if j: "j < length (options p)" for j
    proof -
      have "voterIds (options (recordVote uid ?q x) ! j)
              = filter (\<lambda>id. id \<noteq> uid) (voterIds (options ?q ! j)) @
                (if j = nat x then [uid] else [])"
        using sq x j len by (intro recordVote_single_valid(1)) simp_all
      moreover have "(j = nat x) = (int j = x)" using x(1) by auto
      ultimately show ?thesis using True keep[OF j] by simp
    qed
    then show ?thesis using True by simp
  qed
qed

text \<open>
  Claim C8, as the code has it. A named vote event on an open single-choice poll handles
  the selected indices in order and skips an index that is not an option of the poll; for
  each other index it removes the voter's id from every option and then adds it to that
  option. So no option is gained or lost; when no selected index is in range every option
  is left as it is; otherwise each option's \<open>voterIds\<close> is its old list without the voter's
  id (every other id, placeholders included, in place and in order), followed by the
  voter's id exactly when the option is the last in-range selected one. For a positive
  user id the negative ids of every option are unchanged. The first mention matching the
  user has \<open>voted\<close> set to true.
\<close>

theorem single_choice_named_vote:
  assumes "\<not> isMultipleChoice p" "ids \<noteq> []"
  shows "length (options (pollAnswerUpdate now u ids p)) = length (options p) \<and>
         (filter (validIndex p) ids = [] \<longrightarrow>
            options (pollAnswerUpdate now u ids p) = options p) \<and>
         (filter (validIndex p) ids \<noteq> [] \<longrightarrow>
            (\<forall>j<length (options p).
               voterIds (options (pollAnswerUpdate now u ids p) ! j)
                 = filter (\<lambda>id. id \<noteq> user_id u) (voterIds (options p ! j)) @
                   (if int j = last (filter (validIndex p) ids) then [user_id u] else []))) \<and>
         (0 < user_id u \<longrightarrow>
            (\<forall>j<length (options p).
               filter (\<lambda>id. id < 0) (voterIds (options (pollAnswerUpdate now u ids p) ! j))
                 = filter (\<lambda>id. id < 0) (voterIds (options p ! j)))) \<and>
         (\<forall>m. findIndex (mentionMatches u) (mentions p) = Some m \<longrightarrow>
            voted (mentions (pollAnswerUpdate now u ids p) ! m))"
proof -
  let ?p' = "pollAnswerUpdate now u ids p"
  let ?uid = "user_id u"
  have o: "options ?p' = options (foldl (recordVote ?uid) p ids)"
    using assms(2) by (simp add: options_pollAnswerUpdate)
  note fr = foldl_recordVote_single[OF assms(1), of ids ?uid]
  have a: "length (options ?p') = length (options p)"
    unfolding o by (rule length_foldl_recordVote)
  have b: "filter (validIndex p) ids = [] \<longrightarrow> options ?p' = options p"
    unfolding o using fr by simp
  have c: "filter (validIndex p) ids \<noteq> [] \<longrightarrow>
            (\<forall>j<length (options p).
               voterIds (options ?p' ! j)
                 = filter (\<lambda>id. id \<noteq> ?uid) (voterIds (options p ! j)) @
                   (if int j = last (filter (validIndex p) ids) then [?uid] else []))"
    unfolding o using fr by simp
  have d: "0 < ?uid \<longrightarrow>
            (\<forall>j<length (options p).
               filter (\<lambda>id. id < 0) (voterIds (options ?p' ! j))
                 = filter (\<lambda>id. id < 0) (voterIds (options p ! j)))"
  proof (intro impI allI)
    fix j assume pos: "0 < ?uid" and j: "j < length (options p)"
    have ff: "filter (\<lambda>x. x \<noteq> ?uid \<and> x < 0) xs = filter (\<lambda>id. id < 0) xs" for xs
      by (rule filter_cong) (use pos in auto)
    show "filter (\<lambda>id. id < 0) (voterIds (options ?p' ! j))
            = filter (\<lambda>id. id < 0) (voterIds (options p ! j))"
    proof (cases "filter (validIndex p) ids = []")
      case True
      with b show ?thesis by simp
    next
      case False
      with c j have "voterIds (options ?p' ! j)
                 = filter (\<lambda>id. id \<noteq> ?uid) (voterIds (options p ! j)) @
                   (if int j = last (filter (validIndex p) ids) then [?uid] else [])" by blast
      then show ?thesis using pos by (simp add: ff)
    qed
  qed
  have e: "\<forall>m. findIndex (mentionMatches u) (mentions p) = Some m \<longrightarrow> voted (mentions ?p' ! m)"
    using assms(2) by (simp add: mentions_pollAnswerUpdate updateMentions_voted)
  from a b c d e show ?thesis by blast
qed

theorem single_choice_named_vote_witness:
  "isMultipleChoice votedPoll = False \<and> [1::int] \<noteq> [] \<and>
   filter (validIndex votedPoll) [1] = [1] \<and>
   voterIds (options votedPoll ! 0) = [555] \<and>
   voterIds (options (pollAnswerUpdate 100 voter555 [1] votedPoll) ! 0) = [] \<and>
   voterIds (options (pollAnswerUpdate 100 voter555 [1] votedPoll) ! 1) = [555] \<and>
   findIndex (mentionMatches voter555) (mentions votedPoll) = Some 0 \<and>
   voted (mentions (pollAnswerUpdate 100 voter555 [1] votedPoll) ! 0)"
proof -
  have a: "\<not> isMultipleChoice votedPoll" by (simp add: votedPoll_def example_defs)
  have b: "[1::int] \<noteq> []" by simp
  have c: "filter (validIndex votedPoll) [1] = [1]"
    by (simp add: validIndex_def votedPoll_def example_defs)
  have d: "findIndex (mentionMatches voter555) (mentions votedPoll) = Some 0"
    by (simp add: findIndex_def mentionMatches_def enumerate_eq_zip votedPoll_def example_defs)
  have e: "voterIds (options votedPoll ! 0) = [555]" by (simp add: votedPoll_def example_defs)
  from single_choice_named_vote[OF a b, of 100 voter555] a c d e
  show ?thesis by (simp add: votedPoll_vote1 optionB_def)
qed

text \<open>
  Claim C8 fails as stated: user 555 has voted for option 0 of the two-option
  single-choice example poll. A vote event selecting index 5 leaves 555 on option 0; a
  vote event selecting indices 0 and 1 ends with 555 absent from the selected option 0.
\<close>

theorem single_choice_named_vote_counterexample:
  "voterIds (options ([votedPoll] ! 0) ! 0) = [555] \<and>
   voterIds
     (options (on_poll_answer digitsEnv 100 (Some (answer ''5301234567890123456'' [5]))
                 [votedPoll] ! 0) ! 0) = [555] \<and>
   voterIds
     (options (on_poll_answer digitsEnv 100 (Some (answer ''5301234567890123456'' [0, 1]))
                 [votedPoll] ! 0) ! 0) = []"
  by (simp add: votedPoll_event votedPoll_vote5 votedPoll_vote01)
     (simp add: votedPoll_def example_defs)

section \<open>No duplicate named vote\<close>

lemma list_all_update: "list_all P xs \<Longrightarrow> P x \<Longrightarrow> list_all P (xs[k := x])"
  unfolding list_all_iff using set_update_subset_insert[of xs k x] by auto

lemma filter_swap: "filter P (filter Q xs) = filter Q (filter P xs)"
  by (induction xs) simp_all

lemma namedOnce_removeUserVotes:
  assumes "namedOnce opt"
  shows "namedOnce (removeUserVotes uid opt)"
proof -
  have "distinct (filter (\<lambda>id. id \<noteq> uid) (filter (\<lambda>id. id > 0) (voterIds opt)))"
    using assms unfolding namedOnce_def by (rule distinct_filter)
  then have "distinct (filter (\<lambda>id. id > 0) (filter (\<lambda>id. id \<noteq> uid) (voterIds opt)))"
    by (simp only: filter_swap[of "\<lambda>id. id > 0" "\<lambda>id. id \<noteq> uid"])
  then show ?thesis unfolding namedOnce_def removeUserVotes_def by (simp del: filter_filter)
qed

lemma namedOnce_push:
  "namedOnce opt \<Longrightarrow> uid \<notin> set (voterIds opt) \<Longrightarrow>
   namedOnce (opt\<lparr>voterIds := voterIds opt @ [uid], existingVotes := v\<rparr>) \<and>
   namedOnce (opt\<lparr>voterIds := voterIds opt @ [uid]\<rparr>)"
  by (simp add: namedOnce_def)

lemma namedOnce_retractVote: "namedOnce opt \<Longrightarrow> namedOnce (retractVote uid opt)"
proof -
  assume "namedOnce opt"
  then have "namedOnce (removeUserVotes uid opt)" by (rule namedOnce_removeUserVotes)
  then show ?thesis by (simp add: namedOnce_def retractVote_def removeUserVotes_def Let_def)
qed

lemma namedOnce_recordVote:
  assumes "list_all namedOnce (options p)"
  shows "list_all namedOnce (options (recordVote uid p idx))"
proof (cases "0 \<le> idx \<and> idx < int (length (options p))")
  case False
  then show ?thesis using assms by (simp add: recordVote_invalid)
next
  case True
  let ?opts1 = "if \<not> isMultipleChoice p then map (removeUserVotes uid) (options p) else options p"
  have k: "nat idx < length ?opts1" using True by auto
  have all1: "list_all namedOnce ?opts1"
    using assms by (auto simp: list_all_iff namedOnce_removeUserVotes)
  then have nk: "namedOnce (?opts1 ! nat idx)" using k by (simp add: list_all_length)
  show ?thesis
  proof (cases "uid \<in> set (voterIds (?opts1 ! nat idx))")
    case True
    then have "options (recordVote uid p idx) = ?opts1"
      using \<open>0 \<le> idx \<and> idx < int (length (options p))\<close> by (simp add: recordVote_def Let_def)
    with all1 show ?thesis by simp
  next
    case False
    then obtain v where "options (recordVote uid p idx)
        = ?opts1[nat idx := (?opts1 ! nat idx)\<lparr>voterIds := voterIds (?opts1 ! nat idx) @ [uid],
                                               existingVotes := v\<rparr>]"
      using \<open>0 \<le> idx \<and> idx < int (length (options p))\<close> by (simp add: recordVote_def Let_def)
    then show ?thesis using all1 namedOnce_push[OF nk False] by (simp add: list_all_update)
  qed
qed

lemma namedOnce_foldl_recordVote:
  "list_all namedOnce (options p) \<Longrightarrow> list_all namedOnce (options (foldl (recordVote uid) p ids))"
  by (induction ids arbitrary: p) (simp_all add: namedOnce_recordVote)

lemma namedOnce_pollAnswerUpdate:
  assumes "list_all namedOnce (options p)"
  shows "list_all namedOnce (options (pollAnswerUpdate now u ids p))"
proof (cases "ids = []")
  case True
  then show ?thesis using assms
    by (auto simp: options_pollAnswerUpdate list_all_iff namedOnce_retractVote)
next
  case False
  then show ?thesis using assms
    by (simp add: options_pollAnswerUpdate namedOnce_foldl_recordVote)
qed

lemma options_addVote:
  "options (fst (addVote idx uid p))
     = (if isClosed p \<or> idx < 0 \<or> idx \<ge> int (length (options p)) then options p
        else
          let opts1 = (if \<not> isMultipleChoice p then map (removeUserVotes uid) (options p)
                       else options p)
          in if uid \<notin> set (voterIds (opts1 ! nat idx))
             then opts1[nat idx := (opts1 ! nat idx)\<lparr>voterIds := voterIds (opts1 ! nat idx) @ [uid]\<rparr>]
             else opts1)"
  by (simp add: addVote_def Let_def)

lemma namedOnce_addVote:
  assumes "list_all namedOnce (options p)"
  shows "list_all namedOnce (options (fst (addVote idx uid p)))"
proof (cases "isClosed p \<or> idx < 0 \<or> idx \<ge> int (length (options p))")
  case True
  then show ?thesis using assms by (simp add: options_addVote)
next
  case valid: False
  let ?opts1 = "if \<not> isMultipleChoice p then map (removeUserVotes uid) (options p) else options p"
  have k: "nat idx < length ?opts1" using valid by auto
  have all1: "list_all namedOnce ?opts1"
    using assms by (auto simp: list_all_iff namedOnce_removeUserVotes)
  then have nk: "namedOnce (?opts1 ! nat idx)" using k by (simp add: list_all_length)
  show ?thesis
  proof (cases "uid \<in> set (voterIds (?opts1 ! nat idx))")
    case True
    then have "options (fst (addVote idx uid p)) = ?opts1"
      using valid by (simp add: options_addVote Let_def)
    with all1 show ?thesis by simp
  next
    case False
    then have "options (fst (addVote idx uid p))
        = ?opts1[nat idx := (?opts1 ! nat idx)\<lparr>voterIds := voterIds (?opts1 ! nat idx) @ [uid]\<rparr>]"
      using valid by (simp add: options_addVote Let_def)
    then show ?thesis using all1 namedOnce_push[OF nk False] by (simp add: list_all_update)
  qed
qed

lemma ledgerNamedOnce_update:
  assumes "ledgerNamedOnce db"
    and "i < length db \<Longrightarrow> list_all namedOnce (options d)"
  shows "ledgerNamedOnce (db[i := d])"
proof (cases "i < length db")
  case True
  then show ?thesis using assms unfolding ledgerNamedOnce_def by (simp add: list_all_update)
next
  case False
  then show ?thesis using assms(1) by (simp add: list_update_beyond)
qed

lemma ledgerNamedOnce_nth:
  "ledgerNamedOnce db \<Longrightarrow> i < length db \<Longrightarrow> list_all namedOnce (options (db ! i))"
  by (simp add: ledgerNamedOnce_def list_all_length)

lemma on_poll_answer_cases:
  "on_poll_answer env now e db = db \<or>
   (\<exists>i u ids. on_poll_answer env now e db = db[i := pollAnswerUpdate now u ids (db ! i)])"
  by (auto simp: on_poll_answer_def split: option.splits)

lemma ledgerNamedOnce_on_poll_answer:
  assumes "ledgerNamedOnce db"
  shows "ledgerNamedOnce (on_poll_answer env now e db)"
  using on_poll_answer_cases[of env now e db]
proof
  assume "on_poll_answer env now e db = db"
  then show ?thesis using assms by simp
next
  assume "\<exists>i u ids. on_poll_answer env now e db = db[i := pollAnswerUpdate now u ids (db ! i)]"
  then obtain i u ids where eq: "on_poll_answer env now e db = db[i := pollAnswerUpdate now u ids (db ! i)]"
    by blast
  show ?thesis unfolding eq
    by (rule ledgerNamedOnce_update[OF assms])
       (simp add: namedOnce_pollAnswerUpdate ledgerNamedOnce_nth[OF assms])
qed

lemma ledgerNamedOnce_applyNamedVote:
  assumes "ledgerNamedOnce db"
  shows "ledgerNamedOnce (applyNamedVote env db ev)"
proof (cases ev)
  case (PollAnswer now e)
  then show ?thesis using assms by (simp add: ledgerNamedOnce_on_poll_answer)
next
  case (AddVote i idx uid)
  show ?thesis
  proof (cases "i < length db")
    case True
    have "ledgerNamedOnce (db[i := fst (addVote idx uid (db ! i))])"
      by (rule ledgerNamedOnce_update[OF assms])
         (simp add: namedOnce_addVote ledgerNamedOnce_nth[OF assms])
    then show ?thesis using AddVote True by simp
  next
    case False
    then show ?thesis using AddVote assms by simp
  qed
qed

lemma ledgerNamedOnce_foldl:
  "ledgerNamedOnce db \<Longrightarrow> ledgerNamedOnce (foldl (applyNamedVote env) db evs)"
  by (induction evs arbitrary: db) (simp_all add: ledgerNamedOnce_applyNamedVote)

lemma filter_eq_distinct: "distinct xs \<Longrightarrow> x \<in> set xs \<Longrightarrow> filter (\<lambda>y. y = x) xs = [x]"
proof (induction xs)
  case Nil
  then show ?case by simp
next
  case (Cons a xs)
  show ?case
  proof (cases "a = x")
    case True
    then have "x \<notin> set xs" using Cons.prems by simp
    then have "filter (\<lambda>y. y = x) xs = []" by (auto simp: filter_empty_conv)
    with True show ?thesis by simp
  next
    case False
    then show ?thesis using Cons by simp
  qed
qed

lemma mset_move_to_end:
  fixes ids :: "int list"
  assumes "distinct (filter (\<lambda>id. id > 0) ids)" "0 < uid" "uid \<in> set ids"
  shows "mset (filter (\<lambda>id. id \<noteq> uid) ids @ [uid]) = mset ids"
proof -
  have "filter (\<lambda>y. y = uid) ids = filter (\<lambda>y. y = uid) (filter (\<lambda>id. id > 0) ids)"
    unfolding filter_filter by (rule filter_cong) (use assms(2) in auto)
  also have "\<dots> = [uid]" using assms by (intro filter_eq_distinct) simp_all
  finally have one: "filter (\<lambda>y. y = uid) ids = [uid]" .
  have part: "mset ids = mset (filter (\<lambda>id. id \<noteq> uid) ids) + mset (filter (\<lambda>y. y = uid) ids)"
    by (induction ids) simp_all
  have "mset (filter (\<lambda>id. id \<noteq> uid) ids @ [uid])
          = mset (filter (\<lambda>id. id \<noteq> uid) ids) + mset [uid]" by simp
  also have "\<dots> = mset ids" by (rule part[unfolded one, symmetric])
  finally show ?thesis .
qed

lemma count_list_filter: "P x \<Longrightarrow> count_list (filter P xs) x = count_list xs x"
  by (induction xs) auto

lemma count_list_distinct: "distinct xs \<Longrightarrow> count_list xs x \<le> 1"
  by (induction xs) (auto simp: count_list_0_iff)

lemma namedOnce_count:
  assumes "namedOnce opt" "0 < uid"
  shows "count_list (voterIds opt) uid \<le> 1"
proof -
  have "count_list (voterIds opt) uid = count_list (filter (\<lambda>id. id > 0) (voterIds opt)) uid"
    using assms(2) by (simp add: count_list_filter)
  also have "\<dots> \<le> 1" using assms(1) unfolding namedOnce_def by (rule count_list_distinct)
  finally show ?thesis .
qed

lemma addVote_voterIds:
  assumes "0 \<le> idx" "idx < int (length (options p))"
  shows "voterIds (options (fst (addVote idx uid p)) ! nat idx)
           = (if isClosed p then voterIds (options p ! nat idx)
              else if isMultipleChoice p
              then voterIds (options p ! nat idx) @
                   (if uid \<notin> set (voterIds (options p ! nat idx)) then [uid] else [])
              else filter (\<lambda>id. id \<noteq> uid) (voterIds (options p ! nat idx)) @ [uid])"
proof -
  have k: "nat idx < length (options p)" using assms by simp
  show ?thesis using assms k
    by (auto simp: options_addVote Let_def removeUserVotes_def)
qed

text \<open>
  Claim C9. Starting from a ledger in which no option holds a positive id twice, after any
  sequence of named-vote events (\<open>poll_answer\<close> updates and \<open>addVote\<close> calls) every option of
  every poll still holds any given positive user id at most once. A repeated add of a
  user id to an option that already holds it leaves that option's \<open>voterIds\<close> with the same
  ids the same number of times, and on a multiple-choice poll leaves the list itself
  unchanged (on a single-choice poll the id is removed and appended again).
\<close>

theorem no_duplicate_named_vote:
  assumes "ledgerNamedOnce db"
  shows "ledgerNamedOnce (foldl (applyNamedVote env) db evs) \<and>
         (\<forall>d\<in>set (foldl (applyNamedVote env) db evs). \<forall>opt\<in>set (options d). \<forall>uid.
            0 < uid \<longrightarrow> count_list (voterIds opt) uid \<le> 1) \<and>
         (\<forall>d\<in>set db. \<forall>idx uid.
            0 \<le> idx \<and> idx < int (length (options d)) \<and> 0 < uid \<and>
            uid \<in> set (voterIds (options d ! nat idx)) \<longrightarrow>
              mset (voterIds (options (recordVote uid d idx) ! nat idx))
                = mset (voterIds (options d ! nat idx)) \<and>
              mset (voterIds (options (fst (addVote idx uid d)) ! nat idx))
                = mset (voterIds (options d ! nat idx)) \<and>
              (isMultipleChoice d \<longrightarrow>
                 voterIds (options (recordVote uid d idx) ! nat idx)
                   = voterIds (options d ! nat idx) \<and>
                 voterIds (options (fst (addVote idx uid d)) ! nat idx)
                   = voterIds (options d ! nat idx)))"
proof -
  have inv: "ledgerNamedOnce (foldl (applyNamedVote env) db evs)"
    using assms by (rule ledgerNamedOnce_foldl)
  show ?thesis
  proof (intro conjI ballI allI impI)
    show "ledgerNamedOnce (foldl (applyNamedVote env) db evs)" by (rule inv)
  next
    fix d opt uid
    assume "d \<in> set (foldl (applyNamedVote env) db evs)" "opt \<in> set (options d)"
      and pos: "0 < (uid::int)"
    with inv have "namedOnce opt" by (auto simp: ledgerNamedOnce_def list_all_iff)
    then show "count_list (voterIds opt) uid \<le> 1" using pos by (rule namedOnce_count)
  next
    fix d idx uid
    assume d: "d \<in> set db"
      and h: "0 \<le> idx \<and> idx < int (length (options d)) \<and> 0 < uid \<and>
              uid \<in> set (voterIds (options d ! nat idx))"
    let ?ids = "voterIds (options d ! nat idx)"
    from h have idx: "0 \<le> idx" "idx < int (length (options d))" and pos: "0 < uid"
      and mem: "uid \<in> set ?ids" by simp_all
    have k: "nat idx < length (options d)" using idx by simp
    have "list_all namedOnce (options d)" using assms d by (auto simp: ledgerNamedOnce_def list_all_iff)
    then have "namedOnce (options d ! nat idx)" using k by (simp add: list_all_length)
    then have dist: "distinct (filter (\<lambda>id. id > 0) ?ids)" by (simp add: namedOnce_def)
    note mv = mset_move_to_end[OF dist pos mem]
    have rv: "voterIds (options (recordVote uid d idx) ! nat idx)
                = (if isMultipleChoice d then ?ids else filter (\<lambda>id. id \<noteq> uid) ?ids @ [uid])"
      using recordVote_single_valid(1)[of d idx "nat idx" uid]
        recordVote_multi_valid(1)[of d idx "nat idx" uid] idx k mem
      by (cases "isMultipleChoice d") simp_all
    have av: "voterIds (options (fst (addVote idx uid d)) ! nat idx)
                = (if isClosed d \<or> isMultipleChoice d then ?ids
                   else filter (\<lambda>id. id \<noteq> uid) ?ids @ [uid])"
      using addVote_voterIds[OF idx, of uid] mem by simp
    show "mset (voterIds (options (recordVote uid d idx) ! nat idx)) = mset ?ids"
      unfolding rv using mv by (cases "isMultipleChoice d") (simp_all only: if_True if_False)
    show "mset (voterIds (options (fst (addVote idx uid d)) ! nat idx)) = mset ?ids"
      unfolding av using mv by (cases "isClosed d \<or> isMultipleChoice d") (simp_all only: if_True if_False)
    assume "isMultipleChoice d"
    then show "voterIds (options (recordVote uid d idx) ! nat idx) = ?ids"
      and "voterIds (options (fst (addVote idx uid d)) ! nat idx) = ?ids"
      unfolding rv av by simp_all
  qed
qed

theorem no_duplicate_named_vote_witness:
  "ledgerNamedOnce [votedPoll] \<and>
   ledgerNamedOnce
     (foldl (applyNamedVote digitsEnv) [votedPoll]
        [PollAnswer 100 (Some (answer ''5301234567890123456'' [0])), AddVote 0 0 555]) \<and>
   votedPoll \<in> set [votedPoll] \<and> (0::int) \<le> 0 \<and> 0 < int (length (options votedPoll)) \<and>
   555 \<in> set (voterIds (options votedPoll ! nat 0)) \<and>
   mset (voterIds (options (recordVote 555 votedPoll 0) ! nat 0)) = {#555#} \<and>
   mset (voterIds (options (fst (addVote 0 555 votedPoll)) ! nat 0)) = {#555#}"
proof -
  have a: "ledgerNamedOnce [votedPoll]"
    by (simp add: ledgerNamedOnce_def namedOnce_def votedPoll_def example_defs)
  have b: "voterIds (options votedPoll ! nat 0) = [555]" "0 < int (length (options votedPoll))"
    by (simp_all add: votedPoll_def example_defs)
  have c: "voterIds (options (recordVote 555 votedPoll 0) ! nat 0) = [555]"
    by (simp add: recordVote_def removeUserVotes_def votedPoll_def example_defs)
  have d: "voterIds (options (fst (addVote 0 555 votedPoll)) ! nat 0) = [555]"
    by (simp add: addVote_def removeUserVotes_def votedPoll_def example_defs)
  from no_duplicate_named_vote[OF a, of digitsEnv
      "[PollAnswer 100 (Some (answer ''5301234567890123456'' [0])), AddVote 0 0 555]"]
  have "ledgerNamedOnce
     (foldl (applyNamedVote digitsEnv) [votedPoll]
        [PollAnswer 100 (Some (answer ''5301234567890123456'' [0])), AddVote 0 0 555])"
    by (rule conjunct1)
  with a b c d show ?thesis by simp
qed

end
